theory Spec2Isabelle
  imports Complex_Main
begin

section \<open>JavaScript numbers, formatting and paths\<close>

text \<open>
  Durations, timestamps and percentages are JavaScript numbers. Finite numbers are
  modelled as reals (the rounding of binary floating point is left out); a division
  can leave the finite numbers, so its result is a \<open>jsnum\<close>: \<open>x / 0\<close> is
  \<open>Infinity\<close>, \<open>-Infinity\<close> or \<open>NaN\<close> in JavaScript, never an exception and never
  HOL's \<open>x / 0 = 0\<close>. The divisors of this program are differences of timestamps and
  image dimensions, whose zero is \<open>+0\<close>.
\<close>

datatype jsnum = Fin real | PosInf | NegInf | NaN

definition js_div :: "real \<Rightarrow> real \<Rightarrow> jsnum" where
  "js_div a b =
     (if b \<noteq> 0 then Fin (a / b)
      else if 0 < a then PosInf
      else if a < 0 then NegInf
      else NaN)"

text \<open>Multiplication by a positive finite constant (\<open>* 100\<close> in the percentages).\<close>

definition js_scale :: "jsnum \<Rightarrow> real \<Rightarrow> jsnum" where
  "js_scale r c = (case r of Fin x \<Rightarrow> Fin (x * c) | PosInf \<Rightarrow> PosInf | NegInf \<Rightarrow> NegInf | NaN \<Rightarrow> NaN)"

text \<open>Comparisons with a finite constant: every comparison with \<open>NaN\<close> is false.\<close>

definition js_ge :: "jsnum \<Rightarrow> real \<Rightarrow> bool" where
  "js_ge r c = (case r of Fin x \<Rightarrow> c \<le> x | PosInf \<Rightarrow> True | NegInf \<Rightarrow> False | NaN \<Rightarrow> False)"


definition js_gt :: "jsnum \<Rightarrow> real \<Rightarrow> bool" where
  "js_gt r c = (case r of Fin x \<Rightarrow> c < x | PosInf \<Rightarrow> True | NegInf \<Rightarrow> False | NaN \<Rightarrow> False)"

definition js_lt :: "jsnum \<Rightarrow> real \<Rightarrow> bool" where
  "js_lt r c = (case r of Fin x \<Rightarrow> x < c | PosInf \<Rightarrow> False | NegInf \<Rightarrow> True | NaN \<Rightarrow> False)"


text \<open>The decimal digits of an array index, as a template literal prints it.\<close>

fun decimal :: "nat \<Rightarrow> string" where
  "decimal n =
     (if n < 10 then [''0123456789'' ! n]
      else decimal (n div 10) @ [''0123456789'' ! (n mod 10)])"

declare decimal.simps [simp del]










section \<open>Speech segments\<close>

text \<open>
  A segment is a JavaScript object that each stage copies and extends
  (\<open>{...segment, audioPath, audioDuration}\<close>). The records below extend one another
  the same way. \<open>start\<close> and \<open>end\<close> are the anchors on the video's timeline; \<open>end\<close> and
  \<open>text\<close> are keywords of Isabelle and carry a prime. A field that is \<open>null\<close> or absent
  is \<open>None\<close>.
\<close>

record timed =
  start :: real
  end' :: real

record whisper_segment = timed +
  text' :: string

record translated_segment = timed +
  chinese :: string
  english :: string
  duration :: real

record audio_segment = translated_segment +
  audioPath :: "string option"
  audioDuration :: real
  error :: "string option"




section \<open>translateSegments (translate-segments.mjs)\<close>



text \<open>\<open>\s\<close> of a JavaScript regular expression and \<open>String.prototype.trim\<close>, on the
  characters below 256: tab, line feed, vertical tab, form feed, carriage return, space
  and the no-break space.\<close>

definition is_space :: "char \<Rightarrow> bool" where
  "is_space c = (c \<in> {CHR 0x09, CHR 0x0A, CHR 0x0B, CHR 0x0C, CHR 0x0D, CHR 0x20, CHR 0xA0})"

definition trim :: "string \<Rightarrow> string" where
  "trim s = rev (dropWhile is_space (rev (dropWhile is_space s)))"






text \<open>\<open>apiKey\<close> is \<open>process.env.OPENAI_API_KEY\<close>; an unset or empty variable is falsy.\<close>

definition falsy_env :: "string option \<Rightarrow> bool" where
  "falsy_env v = (v = None \<or> v = Some [])"



section \<open>generateAllSegments (text-to-speech.mjs)\<close>






section \<open>syncAudioTiming (sync-audio.mjs)\<close>













section \<open>transcribeAudio (the Whisper call and its retry loop)\<close>

text \<open>
  An error thrown inside the \<open>try\<close> block: \<open>error.status\<close> (absent on errors that are
  not HTTP errors) and \<open>error.message\<close>.
\<close>

record api_error =
  error_status :: "int option"
  error_message :: string

text \<open>The fields of the \<open>verbose_json\<close> response that the function reads.\<close>

record whisper_response =
  response_language :: "string option"
  response_duration :: "real option"
  response_segments :: "whisper_segment list option"

record transcription =
  result_segments :: "whisper_segment list"
  result_language :: string
  result_duration :: real
  result_cost :: real

datatype transcribe_error =
    KeyNotFound
  | AudioFileNotFound
  | AudioFileTooLarge
  | WhisperRejected string
  | WhisperFailedAfter nat string

text \<open>What the loop does to the outside, in order: a wait of so many milliseconds, or
  a request to the service, tagged with the attempt that makes it.\<close>

datatype retry_event = Sleep nat | Request nat

definition MAX_RETRIES :: nat where
  "MAX_RETRIES = 3"

text \<open>Steps 4 and 5, on a response: \<open>response.language || 'unknown'\<close>,
  \<open>response.duration || 0\<close>, the segments with their text trimmed, and the cost.\<close>

definition parse_response :: "whisper_response \<Rightarrow> transcription" where
  "parse_response response =
     (let detectedLanguage = (case response_language response of None \<Rightarrow> ''unknown''
                              | Some l \<Rightarrow> if l = [] then ''unknown'' else l);
          d = (case response_duration response of None \<Rightarrow> 0 | Some x \<Rightarrow> x);
          segs = map (\<lambda>seg. \<lparr>start = start seg, end' = end' seg, text' = trim (text' seg)\<rparr>)
                   (case response_segments response of None \<Rightarrow> [] | Some xs \<Rightarrow> xs)
      in \<lparr>result_segments = segs, result_language = detectedLanguage, result_duration = d,
          result_cost = d / 60 * 0.006\<rparr>)"

text \<open>
  \<open>for (let attempt = 1; attempt <= MAX_RETRIES; attempt++)\<close>. The service is an
  oracle asked with the number of the attempt: the request throws (\<open>Inl\<close>) or answers.
  \<open>lastError\<close> is the error of the attempt before; the loop returns the events in
  order and how the function ends.
\<close>

function retry_loop ::
  "(nat \<Rightarrow> api_error + whisper_response) \<Rightarrow> nat \<Rightarrow> api_error option
     \<Rightarrow> retry_event list \<times> (transcribe_error + transcription)" where
  "retry_loop whisper attempt lastError =
     (if attempt \<le> MAX_RETRIES then
        (let waits = (if 1 < attempt then [Sleep (2000 * 2 ^ (attempt - 1))] else [])
         in case whisper attempt of
              Inr response \<Rightarrow> (waits @ [Request attempt], Inr (parse_response response))
            | Inl e \<Rightarrow>
                if error_status e = Some 400 then
                  (waits @ [Request attempt], Inl (WhisperRejected (error_message e)))
                else
                  (case retry_loop whisper (Suc attempt) (Some e) of
                     (events, r) \<Rightarrow> (waits @ [Request attempt] @ events, r)))
      else
        ([], Inl (WhisperFailedAfter MAX_RETRIES
                    (case lastError of None \<Rightarrow> [] | Some e \<Rightarrow> error_message e))))"
  by pat_completeness auto
termination
  by (relation "measure (\<lambda>(whisper, attempt, lastError). Suc MAX_RETRIES - attempt)") auto

declare retry_loop.simps [simp del]

text \<open>
  Step 1 comes before the loop: the key (\<open>process.env.OPENAI_API_KEY\<close>), the file
  (\<open>fileSize\<close> is its size in bytes, \<open>None\<close> when it does not exist) and the 25 MB limit.
\<close>

definition transcribeAudio ::
  "string option \<Rightarrow> nat option \<Rightarrow> (nat \<Rightarrow> api_error + whisper_response)
     \<Rightarrow> retry_event list \<times> (transcribe_error + transcription)" where
  "transcribeAudio apiKey fileSize whisper =
     (if falsy_env apiKey then ([], Inl KeyNotFound)
      else case fileSize of
        None \<Rightarrow> ([], Inl AudioFileNotFound)
      | Some bytes \<Rightarrow>
          if 25 < real bytes / 1024 / 1024 then ([], Inl AudioFileTooLarge)
          else retry_loop whisper 1 None)"

text \<open>The attempts that sent a request, in order.\<close>

definition requests :: "retry_event list \<Rightarrow> nat list" where
  "requests events = concat (map (\<lambda>e. case e of Request n \<Rightarrow> [n] | Sleep ms \<Rightarrow> []) events)"

definition sleeps :: "retry_event list \<Rightarrow> nat list" where
  "sleeps events = concat (map (\<lambda>e. case e of Sleep ms \<Rightarrow> [ms] | Request n \<Rightarrow> []) events)"

text \<open>An attempt fails with an error that is not a request-validation error.\<close>

definition fails_retryably :: "(nat \<Rightarrow> api_error + whisper_response) \<Rightarrow> nat \<Rightarrow> bool" where
  "fails_retryably whisper n = (case whisper n of Inl e \<Rightarrow> error_status e \<noteq> Some 400 | Inr r \<Rightarrow> False)"


section \<open>assembleAudioTrack (the assembly of the dubbed track)\<close>



























section \<open>JSON.parse\<close>

text \<open>
  The responses of the generative services are parsed with \<open>JSON.parse\<close>. A text is a
  list of characters, each standing for one code unit below 256. An object keeps its
  members in the order of the text; a property read takes the last member of that name,
  as a later duplicate overwrites an earlier one. Numbers are reals.
\<close>

datatype json =
    JNull
  | JBool bool
  | JNum real
  | JStr string
  | JArr "json list"
  | JObj "(string \<times> json) list"

datatype token =
    TLBrace | TRBrace | TLBracket | TRBracket | TComma | TColon
  | TString string | TNumber real | TTrue | TFalse | TNull

definition is_json_ws :: "char \<Rightarrow> bool" where
  "is_json_ws c = (c = CHR 0x20 \<or> c = CHR 0x09 \<or> c = CHR 0x0A \<or> c = CHR 0x0D)"

definition is_digit :: "char \<Rightarrow> bool" where
  "is_digit c = (48 \<le> (of_char c :: nat) \<and> (of_char c :: nat) \<le> 57)"

definition digit_value :: "char \<Rightarrow> nat" where
  "digit_value c = of_char c - 48"

definition hex_value :: "char \<Rightarrow> nat option" where
  "hex_value c =
     (let n = (of_char c :: nat)
      in if 48 \<le> n \<and> n \<le> 57 then Some (n - 48)
         else if 65 \<le> n \<and> n \<le> 70 then Some (n - 55)
         else if 97 \<le> n \<and> n \<le> 102 then Some (n - 87)
         else None)"

text \<open>The four hexadecimal digits of a \<open>\u\<close> escape.\<close>

definition hex4 :: "string \<Rightarrow> nat option" where
  "hex4 hs =
     (case map hex_value hs of
        [Some a, Some b, Some c, Some d] \<Rightarrow> Some (((a * 16 + b) * 16 + c) * 16 + d)
      | _ \<Rightarrow> None)"

text \<open>A code unit above 255, which a character of the model cannot hold, is kept as
  its two bytes.\<close>

definition unit_chars :: "nat \<Rightarrow> string" where
  "unit_chars n = (if n < 256 then [char_of n] else [char_of (n div 256), char_of (n mod 256)])"

definition simple_escape :: "char \<Rightarrow> char option" where
  "simple_escape e =
     (if e = CHR 0x22 then Some (CHR 0x22)
      else if e = CHR 0x5C then Some (CHR 0x5C)
      else if e = CHR ''/'' then Some (CHR ''/'')
      else if e = CHR ''b'' then Some (CHR 0x08)
      else if e = CHR ''f'' then Some (CHR 0x0C)
      else if e = CHR ''n'' then Some (CHR 0x0A)
      else if e = CHR ''r'' then Some (CHR 0x0D)
      else if e = CHR ''t'' then Some (CHR 0x09)
      else None)"

text \<open>The rest of a string literal after its opening quote: the characters it
  denotes (collected in reverse) and the text after the closing quote.\<close>

fun scan_string :: "string \<Rightarrow> string \<Rightarrow> (string \<times> string) option" where
  "scan_string acc [] = None"
| "scan_string acc (c # cs) =
     (if c = CHR 0x22 then Some (rev acc, cs)
      else if c = CHR 0x5C then
        (case cs of
           [] \<Rightarrow> None
         | e # cs' \<Rightarrow>
             if e = CHR ''u'' then
               (case hex4 (take 4 cs') of
                  None \<Rightarrow> None
                | Some n \<Rightarrow> scan_string (rev (unit_chars n) @ acc) (drop 4 cs'))
             else
               (case simple_escape e of
                  None \<Rightarrow> None
                | Some ch \<Rightarrow> scan_string (ch # acc) cs'))
      else if (of_char c :: nat) < 32 then None
      else scan_string (c # acc) cs)"

text \<open>A number literal: \<open>-? (0 | [1-9][0-9]*) (. [0-9]+)? ([eE] [+-]? [0-9]+)?\<close>.\<close>

definition digits_value :: "string \<Rightarrow> nat" where
  "digits_value ds = foldl (\<lambda>n c. n * 10 + digit_value c) 0 ds"

definition is_number_char :: "char \<Rightarrow> bool" where
  "is_number_char c =
     (is_digit c \<or> c = CHR ''-'' \<or> c = CHR ''+'' \<or> c = CHR ''.'' \<or> c = CHR ''e'' \<or> c = CHR ''E'')"

definition number_value :: "string \<Rightarrow> real option" where
  "number_value s =
     (let negative = (s \<noteq> [] \<and> hd s = CHR ''-'');
          s1 = (if negative then tl s else s);
          ip = takeWhile is_digit s1;
          s2 = dropWhile is_digit s1;
          has_frac = (s2 \<noteq> [] \<and> hd s2 = CHR ''.'');
          fp = (if has_frac then takeWhile is_digit (tl s2) else []);
          s3 = (if has_frac then dropWhile is_digit (tl s2) else s2);
          has_exp = (s3 \<noteq> [] \<and> (hd s3 = CHR ''e'' \<or> hd s3 = CHR ''E''));
          s4 = (if has_exp then tl s3 else s3);
          exp_negative = (has_exp \<and> s4 \<noteq> [] \<and> hd s4 = CHR ''-'');
          s5 = (if has_exp \<and> s4 \<noteq> [] \<and> (hd s4 = CHR ''-'' \<or> hd s4 = CHR ''+'') then tl s4 else s4);
          ep = (if has_exp then takeWhile is_digit s5 else []);
          s6 = (if has_exp then dropWhile is_digit s5 else s5)
      in if ip = [] \<or> (hd ip = CHR ''0'' \<and> length ip \<noteq> 1) \<or> (has_frac \<and> fp = [])
            \<or> (has_exp \<and> ep = []) \<or> s6 \<noteq> []
         then None
         else
           (let mantissa = real (digits_value ip) + real (digits_value fp) / 10 ^ length fp;
                scaled = (if exp_negative then mantissa / 10 ^ digits_value ep
                          else mantissa * 10 ^ digits_value ep)
            in Some (if negative then - scaled else scaled)))"

lemma scan_string_shorter: "scan_string acc cs = Some (s, rest) \<Longrightarrow> length rest < length cs"
proof (induction acc cs rule: scan_string.induct)
  case (1 acc)
  then show ?case by simp
next
  case (2 acc c cs)
  show ?case
  proof (cases "c = CHR 0x22")
    case True
    with 2(4) show ?thesis by simp
  next
    case q: False
    show ?thesis
    proof (cases "c = CHR 0x5C")
      case False
      with q 2(3)[OF q False] 2(4) show ?thesis
        by (auto split: if_splits)
    next
      case True
      show ?thesis
      proof (cases cs)
        case Nil
        with q True 2(4) show ?thesis by simp
      next
        case (Cons e cs')
        show ?thesis
        proof (cases "e = CHR ''u''")
          case u: True
          with q True Cons 2(4) obtain n where n: "hex4 (take 4 cs') = Some n"
            and r: "scan_string (rev (unit_chars n) @ acc) (drop 4 cs') = Some (s, rest)"
            by (auto split: option.splits)
          from 2(1)[OF q True Cons u n r] show ?thesis using Cons by simp
        next
          case nu: False
          with q True Cons 2(4) obtain ch where ch: "simple_escape e = Some ch"
            and r: "scan_string (ch # acc) cs' = Some (s, rest)"
            by (auto split: option.splits)
          from 2(2)[OF q True Cons nu ch r] show ?thesis using Cons by simp
        qed
      qed
    qed
  qed
qed

text \<open>The tokens of a text, or \<open>None\<close> where no token starts.\<close>

function lex :: "string \<Rightarrow> token list option" where
  "lex [] = Some []"
| "lex (c # cs) =
     (if is_json_ws c then lex cs
      else if c = CHR ''{'' then map_option (Cons TLBrace) (lex cs)
      else if c = CHR ''}'' then map_option (Cons TRBrace) (lex cs)
      else if c = CHR ''['' then map_option (Cons TLBracket) (lex cs)
      else if c = CHR '']'' then map_option (Cons TRBracket) (lex cs)
      else if c = CHR '','' then map_option (Cons TComma) (lex cs)
      else if c = CHR '':'' then map_option (Cons TColon) (lex cs)
      else if c = CHR 0x22 then
        (case scan_string [] cs of
           None \<Rightarrow> None
         | Some (s, rest) \<Rightarrow> map_option (Cons (TString s)) (lex rest))
      else if c = CHR ''-'' \<or> is_digit c then
        (case number_value (c # takeWhile is_number_char cs) of
           None \<Rightarrow> None
         | Some x \<Rightarrow> map_option (Cons (TNumber x)) (lex (dropWhile is_number_char cs)))
      else if take 4 (c # cs) = ''true'' then map_option (Cons TTrue) (lex (drop 3 cs))
      else if take 5 (c # cs) = ''false'' then map_option (Cons TFalse) (lex (drop 4 cs))
      else if take 4 (c # cs) = ''null'' then map_option (Cons TNull) (lex (drop 3 cs))
      else None)"
  by pat_completeness auto
termination
proof (relation "measure length", goal_cases)
  case 1
  then show ?case by simp
next
  case (9 c cs x2 s rest)
  then show ?case using scan_string_shorter[of "[]" cs s rest] by simp
next
  case (10 c cs x)
  then show ?case by (simp add: length_dropWhile_le less_Suc_eq_le)
qed simp_all

declare lex.simps [simp del]

text \<open>
  The grammar of values over the tokens, as a machine with a stack of the containers
  that are open. A frame is an array with its elements so far, an object with its
  members so far, or an object with a key that waits for its value (all in reverse).
\<close>

datatype frame =
    FArr "json list"
  | FObj "(string \<times> json) list"
  | FKey "(string \<times> json) list" string

datatype mode =
    MValue
  | MValueOrEnd
  | MKeyOrEnd
  | MKey
  | MColon
  | MAfter
  | MDone json

text \<open>A value is complete: it is the whole text, the next element of the array on
  top, or the value of the waiting key.\<close>

fun complete :: "json \<Rightarrow> frame list \<Rightarrow> (mode \<times> frame list) option" where
  "complete v [] = Some (MDone v, [])"
| "complete v (FArr xs # st) = Some (MAfter, FArr (v # xs) # st)"
| "complete v (FKey ms k # st) = Some (MAfter, FObj ((k, v) # ms) # st)"
| "complete v (FObj ms # st) = None"

definition scalar :: "token \<Rightarrow> json option" where
  "scalar t =
     (case t of
        TString s \<Rightarrow> Some (JStr s)
      | TNumber x \<Rightarrow> Some (JNum x)
      | TTrue \<Rightarrow> Some (JBool True)
      | TFalse \<Rightarrow> Some (JBool False)
      | TNull \<Rightarrow> Some JNull
      | _ \<Rightarrow> None)"

text \<open>One token: the mode and stack after it, or \<open>None\<close> for a syntax error.\<close>

definition step :: "mode \<Rightarrow> frame list \<Rightarrow> token \<Rightarrow> (mode \<times> frame list) option" where
  "step m st t =
     (case m of
        MDone v \<Rightarrow> None
      | MColon \<Rightarrow> (if t = TColon then Some (MValue, st) else None)
      | MKey \<Rightarrow>
          (case (t, st) of
             (TString k, FObj ms # st') \<Rightarrow> Some (MColon, FKey ms k # st')
           | _ \<Rightarrow> None)
      | MKeyOrEnd \<Rightarrow>
          (case (t, st) of
             (TString k, FObj ms # st') \<Rightarrow> Some (MColon, FKey ms k # st')
           | (TRBrace, FObj ms # st') \<Rightarrow> complete (JObj (rev ms)) st'
           | _ \<Rightarrow> None)
      | MAfter \<Rightarrow>
          (case (t, st) of
             (TComma, FArr xs # st') \<Rightarrow> Some (MValue, st)
           | (TComma, FObj ms # st') \<Rightarrow> Some (MKey, st)
           | (TRBracket, FArr xs # st') \<Rightarrow> complete (JArr (rev xs)) st'
           | (TRBrace, FObj ms # st') \<Rightarrow> complete (JObj (rev ms)) st'
           | _ \<Rightarrow> None)
      | _ \<Rightarrow>
          (if t = TLBracket then Some (MValueOrEnd, FArr [] # st)
           else if t = TLBrace then Some (MKeyOrEnd, FObj [] # st)
           else if t = TRBracket \<and> m = MValueOrEnd then
             (case st of FArr xs # st' \<Rightarrow> complete (JArr (rev xs)) st' | _ \<Rightarrow> None)
           else (case scalar t of None \<Rightarrow> None | Some v \<Rightarrow> complete v st)))"

fun run_tokens :: "mode \<Rightarrow> frame list \<Rightarrow> token list \<Rightarrow> json option" where
  "run_tokens m st [] = (case m of MDone v \<Rightarrow> (if st = [] then Some v else None) | _ \<Rightarrow> None)"
| "run_tokens m st (t # ts) =
     (case step m st t of None \<Rightarrow> None | Some (m', st') \<Rightarrow> run_tokens m' st' ts)"

text \<open>\<open>JSON.parse(text)\<close>: the value, or \<open>None\<close> where JavaScript throws a
  \<open>SyntaxError\<close>.\<close>

definition JSON_parse :: "string \<Rightarrow> json option" where
  "JSON_parse input = (case lex input of None \<Rightarrow> None | Some ts \<Rightarrow> run_tokens MValue [] ts)"

text \<open>Reading a property of a parsed value: \<open>undefined\<close> (\<open>None\<close>) when the value is an
  object without it, or not an object at all. (A read on \<open>null\<close> throws; the callers
  below read only from objects.)\<close>

definition jget :: "json \<Rightarrow> string \<Rightarrow> json option" where
  "jget v k = (case v of JObj ms \<Rightarrow> map_of (rev ms) k | _ \<Rightarrow> None)"

text \<open>JavaScript's truthiness of a value that may be \<open>undefined\<close>.\<close>

definition truthy :: "json option \<Rightarrow> bool" where
  "truthy v =
     (case v of
        None \<Rightarrow> False
      | Some JNull \<Rightarrow> False
      | Some (JBool b) \<Rightarrow> b
      | Some (JNum x) \<Rightarrow> x \<noteq> 0
      | Some (JStr s) \<Rightarrow> s \<noteq> []
      | Some (JArr xs) \<Rightarrow> True
      | Some (JObj ms) \<Rightarrow> True)"

text \<open>The stack of the machine has an object as its outermost container.\<close>

definition object_at_bottom :: "frame list \<Rightarrow> bool" where
  "object_at_bottom st = (st \<noteq> [] \<and> (case last st of FArr xs \<Rightarrow> False | _ \<Rightarrow> True))"


section \<open>The defensive parse of a classifier response\<close>

text \<open>
  The cleanup pass is four global replacements, in this order:
  \<open>.replace(/,(\s*[}\]])/g, '$1')\<close>, \<open>.replace(/:\s*'/g, ': "')\<close>,
  \<open>.replace(/'\s*,/g, '",')\<close> and \<open>.replace(/'\s*}/g, '"}')\<close>. Each scans the text
  from the left and goes on after a match.
\<close>

definition next_after_spaces :: "string \<Rightarrow> char option" where
  "next_after_spaces cs = (case dropWhile is_space cs of [] \<Rightarrow> None | d # rest \<Rightarrow> Some d)"

text \<open>A comma before a closing brace or bracket goes; the white space and the closing
  character of the match stay (\<open>$1\<close>), and no comma is among them.\<close>

fun strip_trailing_commas :: "string \<Rightarrow> string" where
  "strip_trailing_commas [] = []"
| "strip_trailing_commas (c # cs) =
     (if c = CHR '','' \<and> next_after_spaces cs \<in> {Some (CHR ''}''), Some (CHR '']'')}
      then strip_trailing_commas cs
      else c # strip_trailing_commas cs)"

text \<open>The other three have the shape \<open>a\s*b\<close> with a fixed replacement: the character
  \<open>a\<close>, white space, the character \<open>b\<close>.\<close>

function replace_spaced :: "char \<Rightarrow> char \<Rightarrow> string \<Rightarrow> string \<Rightarrow> string" where
  "replace_spaced a b r [] = []"
| "replace_spaced a b r (c # cs) =
     (if c = a \<and> next_after_spaces cs = Some b
      then r @ replace_spaced a b r (tl (dropWhile is_space cs))
      else c # replace_spaced a b r cs)"
  by pat_completeness auto
termination
  by (relation "measure (\<lambda>(a, b, r, cs). length cs)")
     (auto simp: less_Suc_eq_le intro: le_trans[OF diff_le_self length_dropWhile_le])

declare replace_spaced.simps [simp del]

definition cleanup :: "string \<Rightarrow> string" where
  "cleanup fullJson =
     replace_spaced (CHR 0x27) (CHR ''}'') [CHR 0x22, CHR ''}'']
       (replace_spaced (CHR 0x27) (CHR '','') [CHR 0x22, CHR '','']
          (replace_spaced (CHR '':'') (CHR 0x27) [CHR '':'', CHR '' '', CHR 0x22]
             (strip_trailing_commas fullJson)))"

text \<open>
  The truncation repair: \<open>cleanedJson.replace(/,\s*\{[^}]*$/, '')\<close> cuts the text at
  the first comma that is followed by an opening brace with no closing brace after it;
  then as many \<open>]\<close> and \<open>}\<close> are appended as the text opens more than it closes.
\<close>

fun drop_incomplete :: "string \<Rightarrow> string" where
  "drop_incomplete [] = []"
| "drop_incomplete (c # cs) =
     (if c = CHR '','' \<and>
         (case dropWhile is_space cs of [] \<Rightarrow> False | d # rest \<Rightarrow> d = CHR ''{'' \<and> CHR ''}'' \<notin> set rest)
      then []
      else c # drop_incomplete cs)"

definition count_char :: "char \<Rightarrow> string \<Rightarrow> int" where
  "count_char c s = int (length (filter (\<lambda>d. d = c) s))"

definition repair :: "string \<Rightarrow> string" where
  "repair cleanedJson =
     (let truncated = drop_incomplete cleanedJson;
          openBrackets = count_char (CHR ''['') truncated - count_char (CHR '']'') truncated;
          openBraces = count_char (CHR ''{'') truncated - count_char (CHR ''}'') truncated
      in truncated @ replicate (nat (max 0 openBrackets)) (CHR '']'')
                   @ replicate (nat (max 0 openBraces)) (CHR ''}''))"

text \<open>
  The \<open>try\<close>/\<open>catch\<close> chain of \<open>callHaikuForOverlays\<close> on the text of the response,
  which continues the prefilled \<open>{"overlays": [\<close>. It returns the texts handed to
  \<open>JSON.parse\<close>, in order, and the value returned: the parsed value, or \<open>null\<close>
  (\<open>None\<close>) after the third failure.
\<close>

definition prefill :: string where
  "prefill = [CHR ''{'', CHR 0x22] @ ''overlays'' @ [CHR 0x22] @ '': [''"

definition parse_overlays :: "string \<Rightarrow> string list \<times> json option" where
  "parse_overlays responseText =
     (let fullJson = prefill @ responseText
      in case JSON_parse fullJson of
           Some v \<Rightarrow> ([fullJson], Some v)
         | None \<Rightarrow>
             (let cleanedJson = cleanup fullJson
              in case JSON_parse cleanedJson of
                   Some v \<Rightarrow> ([fullJson, cleanedJson], Some v)
                 | None \<Rightarrow>
                     (let truncated = repair cleanedJson
                      in case JSON_parse truncated of
                           Some v \<Rightarrow> ([fullJson, cleanedJson, truncated], Some v)
                         | None \<Rightarrow> ([fullJson, cleanedJson, truncated], None))))"





section \<open>analyzeImageWithGoogle (analyze-with-google-vision.mjs)\<close>

text \<open>
  What the text detection returns, as far as the function reads it: pages of blocks of
  paragraphs; a paragraph has words, each a list of symbol texts, and the vertices of
  its bounding box, whose coordinates may be absent.
\<close>

record vertex =
  vx :: "int option"
  vy :: "int option"

record vision_paragraph =
  words :: "string list list"
  vertices :: "vertex list"

type_synonym block = "vision_paragraph list"
type_synonym page = "block list"

record text_block =
  tb_index :: nat
  tb_text :: string
  tb_x :: int
  tb_y :: int
  tb_width :: int
  tb_height :: int
  tb_x_percent :: jsnum
  tb_y_percent :: jsnum
  tb_width_percent :: jsnum
  tb_height_percent :: jsnum

text \<open>The position and the size of an overlay, in percent of the image. A field is
  \<open>None\<close> when its value is \<open>undefined\<close>.\<close>

record position =
  x_percent :: "jsnum option"
  y_percent :: "jsnum option"

record box_size =
  width_percent :: "jsnum option"
  height_percent :: "jsnum option"

text \<open>An overlay as the classifier returns it. \<open>chinese\<close> and \<open>english\<close> are whatever
  values the response held under these names (strings, if the model kept to the
  prompt), \<open>None\<close> for \<open>undefined\<close>; \<open>position\<close> and \<open>size\<close> are absent on an overlay
  from another source.\<close>

record overlay =
  overlay_chinese :: "json option"
  overlay_english :: "json option"
  isAuthorOverlay :: bool
  position :: "position option"
  size' :: "box_size option"

definition MIN_WIDTH_PERCENT :: real where
  "MIN_WIDTH_PERCENT = 2"

definition MIN_HEIGHT_PERCENT :: real where
  "MIN_HEIGHT_PERCENT = 1.5"

datatype analyze_error =
    VisionFailed
  | MetadataFailed
  | ReadFailed
  | ClassifierFailed
  | TypeError

text \<open>\<open>vertices[i].x || 0\<close>: a read of a vertex that is not there throws.\<close>

definition coordinate :: "int option \<Rightarrow> int" where
  "coordinate c = (case c of None \<Rightarrow> 0 | Some v \<Rightarrow> v)"

definition vertex_at :: "vertex list \<Rightarrow> nat \<Rightarrow> analyze_error + vertex" where
  "vertex_at vs i = (if i < length vs then Inr (vs ! i) else Inl TypeError)"

definition percent :: "int \<Rightarrow> nat \<Rightarrow> jsnum" where
  "percent a whole = js_scale (js_div (real_of_int a) (real whole)) 100"

text \<open>The size filter: \<open>width_percent < MIN_WIDTH_PERCENT && height_percent <
  MIN_HEIGHT_PERCENT\<close>.\<close>

definition too_small :: "jsnum \<Rightarrow> jsnum \<Rightarrow> bool" where
  "too_small width_percent' height_percent' =
     (js_lt width_percent' MIN_WIDTH_PERCENT \<and> js_lt height_percent' MIN_HEIGHT_PERCENT)"

text \<open>The loop over the paragraphs of all pages and blocks, in order: \<open>textBlocks\<close>
  grows by the paragraphs that pass the filter, each indexed by the length so far.\<close>

fun extract_blocks ::
  "nat \<Rightarrow> nat \<Rightarrow> text_block list \<Rightarrow> vision_paragraph list \<Rightarrow> analyze_error + text_block list" where
  "extract_blocks imgWidth imgHeight textBlocks [] = Inr textBlocks"
| "extract_blocks imgWidth imgHeight textBlocks (par # rest) =
     (case vertex_at (vertices par) 0 of
        Inl e \<Rightarrow> Inl e
      | Inr v0 \<Rightarrow>
          (case vertex_at (vertices par) 2 of
             Inl e \<Rightarrow> Inl e
           | Inr v2 \<Rightarrow>
               (let x = coordinate (vx v0); y = coordinate (vy v0);
                    x2 = coordinate (vx v2); y2 = coordinate (vy v2);
                    width = x2 - x; height = y2 - y;
                    width_percent' = percent width imgWidth;
                    height_percent' = percent height imgHeight
                in if too_small width_percent' height_percent' then
                     extract_blocks imgWidth imgHeight textBlocks rest
                   else
                     extract_blocks imgWidth imgHeight
                       (textBlocks @
                          [\<lparr>tb_index = length textBlocks,
                            tb_text = concat (map concat (words par)),
                            tb_x = x, tb_y = y, tb_width = width, tb_height = height,
                            tb_x_percent = percent x imgWidth,
                            tb_y_percent = percent y imgHeight,
                            tb_width_percent = width_percent',
                            tb_height_percent = height_percent'\<rparr>])
                       rest)))"

text \<open>
  \<open>callHaikuForOverlays\<close>: the request throws, or the text of the response goes
  through the three parse attempts. The service is an oracle asked with the number of
  the request within the run and its blocks (the image is the same in every request):
  the same blocks may be answered differently the second time.
\<close>

definition callHaikuForOverlays ::
  "(nat \<Rightarrow> text_block list \<Rightarrow> string option) \<Rightarrow> nat \<Rightarrow> text_block list
     \<Rightarrow> analyze_error + json option" where
  "callHaikuForOverlays haiku n textBlocks =
     (case haiku n textBlocks of
        None \<Rightarrow> Inl ClassifierFailed
      | Some responseText \<Rightarrow> Inr (snd (parse_overlays responseText)))"

definition BATCH_SIZE :: nat where
  "BATCH_SIZE = 15"

function batches :: "'a list \<Rightarrow> 'a list list" where
  "batches xs = (if xs = [] then [] else take BATCH_SIZE xs # batches (drop BATCH_SIZE xs))"
  by pat_completeness auto
termination
  by (relation "measure length") (auto simp: BATCH_SIZE_def)

declare batches.simps [simp del]

text \<open>\<open>allOverlays.push(...batchResult.overlays)\<close>: an array is spread into its
  elements and a string into its characters; anything else is not iterable.\<close>

definition spread :: "json option \<Rightarrow> analyze_error + json list" where
  "spread v =
     (case v of
        Some (JArr xs) \<Rightarrow> Inr xs
      | Some (JStr s) \<Rightarrow> Inr (map (\<lambda>c. JStr [c]) s)
      | _ \<Rightarrow> Inl TypeError)"

fun batch_loop ::
  "(nat \<Rightarrow> text_block list \<Rightarrow> string option) \<Rightarrow> nat \<Rightarrow> json list \<Rightarrow> text_block list list
     \<Rightarrow> analyze_error + json list" where
  "batch_loop haiku n allOverlays [] = Inr allOverlays"
| "batch_loop haiku n allOverlays (batch # rest) =
     (case callHaikuForOverlays haiku n batch of
        Inl e \<Rightarrow> Inl e
      | Inr None \<Rightarrow> batch_loop haiku (Suc n) allOverlays rest
      | Inr (Some batchResult) \<Rightarrow>
          (case spread (jget batchResult ''overlays'') of
             Inl e \<Rightarrow> Inl e
           | Inr items \<Rightarrow> batch_loop haiku (Suc n) (allOverlays @ items) rest))"

text \<open>
  What one request of the batched retry does to the run: it ends it, when the request
  throws or the \<open>overlays\<close> of its parsed response cannot be spread, or it adds to
  \<open>allOverlays\<close>, nothing when the response cannot be parsed.
\<close>

definition batch_throws ::
  "(nat \<Rightarrow> text_block list \<Rightarrow> string option) \<Rightarrow> nat \<Rightarrow> text_block list \<Rightarrow> bool" where
  "batch_throws haiku n batch =
     (case callHaikuForOverlays haiku n batch of
        Inl e \<Rightarrow> True
      | Inr None \<Rightarrow> False
      | Inr (Some batchResult) \<Rightarrow>
          (case spread (jget batchResult ''overlays'') of Inl e \<Rightarrow> True | Inr items \<Rightarrow> False))"

definition contribution ::
  "(nat \<Rightarrow> text_block list \<Rightarrow> string option) \<Rightarrow> nat \<Rightarrow> text_block list \<Rightarrow> json list" where
  "contribution haiku n batch =
     (case callHaikuForOverlays haiku n batch of
        Inr (Some batchResult) \<Rightarrow>
          (case spread (jget batchResult ''overlays'') of Inl e \<Rightarrow> [] | Inr items \<Rightarrow> items)
      | other \<Rightarrow> [])"

text \<open>
  \<open>textBlocks[overlay.index]\<close> turns the index into a property key, the string that
  \<open>ToString\<close> makes of it: the decimal digits of a whole number that is not negative,
  a string as it is, \<open>true\<close>, \<open>false\<close>, \<open>null\<close>, the key of its only element for an
  array of one (empty for \<open>null\<close>), \<open>[object Object]\<close>. \<open>None\<close> stands for a key that
  names no property of any array: the text of any other number, which has a sign, a
  point or an exponent, and of an array of two or more elements, which has a comma.
\<close>

fun key_of :: "json \<Rightarrow> string option" where
  "key_of JNull = Some ''null''"
| "key_of (JBool b) = Some (if b then ''true'' else ''false'')"
| "key_of (JNum x) = (if 0 \<le> x \<and> x = of_int \<lfloor>x\<rfloor> then Some (decimal (nat \<lfloor>x\<rfloor>)) else None)"
| "key_of (JStr s) = Some s"
| "key_of (JArr []) = Some []"
| "key_of (JArr [v]) = (if v = JNull then Some [] else key_of v)"
| "key_of (JArr (v # w # vs)) = None"
| "key_of (JObj ms) = Some ''[object Object]''"

definition property_key :: "json option \<Rightarrow> string option" where
  "property_key i = (case i of None \<Rightarrow> Some ''undefined'' | Some v \<Rightarrow> key_of v)"

text \<open>
  What the lookup finds: the block at the index that the key spells; under another
  name a value that is no block (the length of the array, a method that arrays
  inherit), which counts when it is truthy; or \<open>undefined\<close>. \<open>inherited\<close> tells the
  names, other than \<open>length\<close>, under which the arrays of the engine have a truthy
  property.
\<close>

datatype lookup = Block text_block | Member | Absent

definition block_at :: "(string \<Rightarrow> bool) \<Rightarrow> text_block list \<Rightarrow> json option \<Rightarrow> lookup" where
  "block_at inherited textBlocks i =
     (case property_key i of
        None \<Rightarrow> Absent
      | Some k \<Rightarrow>
          (case filter (\<lambda>n. decimal n = k) [0..<length textBlocks] of
             n # ns \<Rightarrow> Block (textBlocks ! n)
           | [] \<Rightarrow>
               if k = ''length'' then (if textBlocks = [] then Absent else Member)
               else if inherited k then Member
               else Absent))"

text \<open>\<open>a || b\<close> on values that may be \<open>undefined\<close>.\<close>

definition js_or :: "json option \<Rightarrow> json option \<Rightarrow> json option" where
  "js_or a b = (if truthy a then a else b)"

text \<open>Step 3 for one element of \<open>overlays\<close>: the overlay, \<open>null\<close> (\<open>Inr None\<close>, filtered
  out afterwards) when the lookup finds nothing truthy, or the \<open>TypeError\<close> of a read
  from \<open>null\<close>. Every field that is read from a value that is no block is
  \<open>undefined\<close>.\<close>

definition map_overlay ::
  "(string \<Rightarrow> bool) \<Rightarrow> text_block list \<Rightarrow> json \<Rightarrow> analyze_error + overlay option" where
  "map_overlay inherited textBlocks item =
     (if item = JNull then Inl TypeError
      else case block_at inherited textBlocks (jget item ''index'') of
        Absent \<Rightarrow> Inr None
      | found \<Rightarrow>
          (let textBlock = (case found of Block b \<Rightarrow> Some b | other \<Rightarrow> None);
               chinese' = js_or (jget item ''chinese'')
                           (js_or (jget item ''text'')
                              (js_or (jget item ''original'')
                                 (map_option (\<lambda>b. JStr (tb_text b)) textBlock)));
               english' = js_or (jget item ''english'')
                           (js_or (jget item ''translation'')
                              (js_or (jget item ''translated'') chinese'))
           in Inr (Some
                \<lparr>overlay_chinese = chinese',
                 overlay_english = english',
                 isAuthorOverlay = True,
                 position = Some \<lparr>x_percent = map_option tb_x_percent textBlock,
                                  y_percent = map_option tb_y_percent textBlock\<rparr>,
                 size' = Some \<lparr>width_percent = map_option tb_width_percent textBlock,
                               height_percent = map_option tb_height_percent textBlock\<rparr>\<rparr>)))"

fun map_overlays ::
  "(string \<Rightarrow> bool) \<Rightarrow> text_block list \<Rightarrow> json list \<Rightarrow> analyze_error + overlay list" where
  "map_overlays inherited textBlocks [] = Inr []"
| "map_overlays inherited textBlocks (item # rest) =
     (case map_overlay inherited textBlocks item of
        Inl e \<Rightarrow> Inl e
      | Inr found \<Rightarrow>
          (case map_overlays inherited textBlocks rest of
             Inl e \<Rightarrow> Inl e
           | Inr others \<Rightarrow> Inr ((case found of None \<Rightarrow> [] | Some ov \<Rightarrow> [ov]) @ others)))"

text \<open>
  The outside of one run: what the text detection returns (\<open>None\<close>: it throws;
  \<open>Some None\<close>: no annotation or no pages), the image's dimensions from sharp, whether
  the image file can be read, the classifier, and the names of the truthy properties
  that the engine's arrays inherit.
\<close>

record google_env =
  vision :: "page list option option"
  metadata :: "(nat \<times> nat) option"
  readable :: bool
  haiku :: "nat \<Rightarrow> text_block list \<Rightarrow> string option"
  inherited_member :: "string \<Rightarrow> bool"

text \<open>The body of the \<open>try\<close> block: the overlays, or the exception that reaches the
  \<open>catch\<close>.\<close>

definition analyze_body :: "google_env \<Rightarrow> analyze_error + overlay list" where
  "analyze_body env =
     (case vision env of
        None \<Rightarrow> Inl VisionFailed
      | Some None \<Rightarrow> Inr []
      | Some (Some pages) \<Rightarrow>
          if pages = [] then Inr []
          else case metadata env of
            None \<Rightarrow> Inl MetadataFailed
          | Some (imgWidth, imgHeight) \<Rightarrow>
              (case extract_blocks imgWidth imgHeight [] (concat (concat pages)) of
                 Inl e \<Rightarrow> Inl e
               | Inr textBlocks \<Rightarrow>
                   if textBlocks = [] then Inr []
                   else if \<not> readable env then Inl ReadFailed
                   else case callHaikuForOverlays (haiku env) 0 textBlocks of
                     Inl e \<Rightarrow> Inl e
                   | Inr (Some filteredOverlays) \<Rightarrow>
                       (case jget filteredOverlays ''overlays'' of
                          Some (JArr items) \<Rightarrow> map_overlays (inherited_member env) textBlocks items
                        | _ \<Rightarrow> Inl TypeError)
                   | Inr None \<Rightarrow>
                       (case batch_loop (haiku env) 1 [] (batches textBlocks) of
                          Inl e \<Rightarrow> Inl e
                        | Inr allOverlays \<Rightarrow> map_overlays (inherited_member env) textBlocks allOverlays)))"

text \<open>The function: the \<open>catch\<close> turns every exception into \<open>{ overlays: [] }\<close>.\<close>

definition analyzeImageWithGoogle :: "google_env \<Rightarrow> overlay list" where
  "analyzeImageWithGoogle env = (case analyze_body env of Inl e \<Rightarrow> [] | Inr overlays \<Rightarrow> overlays)"

text \<open>The width, height and text of a paragraph, as the loop computes them from its
  first and third vertex.\<close>

definition box_width :: "vision_paragraph \<Rightarrow> int" where
  "box_width par = coordinate (vx (vertices par ! 2)) - coordinate (vx (vertices par ! 0))"

definition box_height :: "vision_paragraph \<Rightarrow> int" where
  "box_height par = coordinate (vy (vertices par ! 2)) - coordinate (vy (vertices par ! 0))"

definition paragraph_text :: "vision_paragraph \<Rightarrow> string" where
  "paragraph_text par = concat (map concat (words par))"

text \<open>The claim's words: below 2% of the image's width and below 1.5% of its height.\<close>

definition tiny_in_both :: "nat \<Rightarrow> nat \<Rightarrow> vision_paragraph \<Rightarrow> bool" where
  "tiny_in_both imgWidth imgHeight par =
     (real_of_int (box_width par) < 2 / 100 * real imgWidth \<and>
      real_of_int (box_height par) < 1.5 / 100 * real imgHeight)"

text \<open>A response of the classifier that gives nothing to read: the request throws, or
  none of the parse attempts reads an object.\<close>

definition unusable :: "(nat \<Rightarrow> text_block list \<Rightarrow> string option) \<Rightarrow> nat \<Rightarrow> text_block list \<Rightarrow> bool" where
  "unusable hk n bs = (case hk n bs of None \<Rightarrow> True | Some r \<Rightarrow> snd (parse_overlays r) = None)"


section \<open>analyzeImageText (analyze-with-claude.mjs)\<close>

text \<open>\<open>needle\<close> occurs in the text.\<close>

fun contains :: "string \<Rightarrow> string \<Rightarrow> bool" where
  "contains needle [] = (needle = [])"
| "contains needle (c # cs) = (take (length needle) (c # cs) = needle \<or> contains needle cs)"

text \<open>
  \<open>text.match(/\{[\s\S]*"key"[\s\S]*\}/)\<close>: the match runs from the first opening
  brace to the last closing brace of the text, and there is one when the quoted key
  stands between the two.
\<close>

definition match_object :: "string \<Rightarrow> string \<Rightarrow> string option" where
  "match_object key t =
     (let s1 = dropWhile (\<lambda>c. c \<noteq> CHR ''{'') t;
          s2 = rev (dropWhile (\<lambda>c. c \<noteq> CHR ''}'') (rev s1))
      in if s2 \<noteq> [] \<and> contains ([CHR 0x22] @ key @ [CHR 0x22]) (butlast (tl s2))
         then Some s2 else None)"

text \<open>
  The code fences: \<open>.replace(/^```(?:json)?\s*\n?/, '')\<close> on a text that starts with
  three backticks, then \<open>.replace(/\n?```\s*$/, '')\<close>.
\<close>

definition fence :: string where
  "fence = replicate 3 (CHR 0x60)"

definition strip_closing_fence :: "string \<Rightarrow> string" where
  "strip_closing_fence t =
     (let r = dropWhile is_space (rev t)
      in if take 3 r = fence then
           (let r2 = drop 3 r
            in rev (if r2 \<noteq> [] \<and> hd r2 = CHR 0x0A then tl r2 else r2))
         else t)"

definition strip_fences :: "string \<Rightarrow> string" where
  "strip_fences t =
     (if take 3 t = fence then
        (let t1 = drop 3 t;
             t2 = (if take 4 t1 = ''json'' then drop 4 t1 else t1)
         in strip_closing_fence (dropWhile is_space t2))
      else t)"

text \<open>\<open>analysis.overlays.filter(o => o.isAuthorOverlay)\<close>: a read from \<open>null\<close>
  throws, and so does \<open>filter\<close> on anything but an array.\<close>

fun author_overlays :: "json list \<Rightarrow> analyze_error + json list" where
  "author_overlays [] = Inr []"
| "author_overlays (item # rest) =
     (if item = JNull then Inl TypeError
      else case author_overlays rest of
        Inl e \<Rightarrow> Inl e
      | Inr kept \<Rightarrow> Inr (if truthy (jget item ''isAuthorOverlay'') then item # kept else kept))"

text \<open>The outside of one run: whether the image file can be read, and the text of the
  vision model's response (\<open>None\<close>: the request throws).\<close>

record claude_env =
  image_readable :: bool
  claude :: "string option"

definition analyze_text_body :: "claude_env \<Rightarrow> analyze_error + json list" where
  "analyze_text_body env =
     (if \<not> image_readable env then Inl ReadFailed
      else case claude env of
        None \<Rightarrow> Inl ClassifierFailed
      | Some response \<Rightarrow>
          (let responseText = strip_fences (trim response)
           in case match_object ''overlays'' responseText of
                None \<Rightarrow> Inr []
              | Some jsonMatch \<Rightarrow>
                  (let parsed =
                     (case JSON_parse jsonMatch of
                        Some v \<Rightarrow> Some v
                      | None \<Rightarrow>
                          (let cleanedJson = cleanup jsonMatch
                           in case JSON_parse cleanedJson of
                                Some v \<Rightarrow> Some v
                              | None \<Rightarrow> JSON_parse (repair cleanedJson)))
                   in case parsed of
                        None \<Rightarrow> Inr []
                      | Some analysis \<Rightarrow>
                          (case jget analysis ''overlays'' of
                             Some (JArr items) \<Rightarrow> author_overlays items
                           | _ \<Rightarrow> Inl TypeError))))"

definition analyzeImageText :: "claude_env \<Rightarrow> json list" where
  "analyzeImageText env = (case analyze_text_body env of Inl e \<Rightarrow> [] | Inr overlays \<Rightarrow> overlays)"


section \<open>validateImageTranslation (validate-with-claude.mjs)\<close>

text \<open>What the \<open>try\<close> block of the validator can throw: the edited image cannot be read,
  the request fails, a property is read from \<open>null\<close> or \<open>undefined\<close> or a value that is
  no function is called, \<open>JSON.parse\<close> rejects its text.\<close>

datatype validation_error = ImageUnreadable | RequestFailed | BadValue | SyntaxError

text \<open>The returned object. A field is \<open>None\<close> when the object has no such property or
  when its value is \<open>undefined\<close>.\<close>

record validation_result =
  success :: "json option"
  quality_score :: "json option"
  reason :: "json option"
  untranslated :: "json option"
  missing :: "json option"
  gibberish :: "json option"

text \<open>The outside of one call: whether the edited image can be read, the content
  blocks of the model's message with the text of each (\<open>None\<close> for the message: the
  request throws; \<open>None\<close> for a block: it has no text), and the number that the engine
  makes of a string or an array in a comparison.\<close>

record validate_env =
  edited_readable :: bool
  anthropic :: "string option list option"
  toNumber :: "json \<Rightarrow> jsnum"

text \<open>The operand of \<open>>=\<close> and \<open>>\<close> as a number: \<open>undefined\<close> is NaN, \<open>null\<close> is 0, a
  boolean 0 or 1, an object NaN.\<close>

definition to_number :: "(json \<Rightarrow> jsnum) \<Rightarrow> json option \<Rightarrow> jsnum" where
  "to_number engine v =
     (case v of
        None \<Rightarrow> NaN
      | Some JNull \<Rightarrow> Fin 0
      | Some (JBool b) \<Rightarrow> Fin (if b then 1 else 0)
      | Some (JNum x) \<Rightarrow> Fin x
      | Some (JObj ms) \<Rightarrow> NaN
      | Some w \<Rightarrow> engine w)"

text \<open>\<open>{ success: true, reason }\<close>.\<close>

definition accepted :: "string \<Rightarrow> validation_result" where
  "accepted why =
     \<lparr>success = Some (JBool True), quality_score = None, reason = Some (JStr why),
      untranslated = None, missing = None, gibberish = None\<rparr>"

text \<open>\<open>a && b >= 80 && !c\<close>: the first operand when it is falsy, else the comparison
  when it is false, else the negation.\<close>

definition success_of :: "(json \<Rightarrow> jsnum) \<Rightarrow> json \<Rightarrow> json option" where
  "success_of engine validation =
     (if \<not> truthy (jget validation ''all_translated'') then jget validation ''all_translated''
      else if \<not> js_ge (to_number engine (jget validation ''quality_score'')) 80
        then Some (JBool False)
      else Some (JBool (\<not> truthy (jget validation ''gibberish_detected''))))"

text \<open>\<open>if (v && v.length > 0) console.log(v.join(', '))\<close> throws when \<open>v\<close> has a
  positive length and no \<open>join\<close>: a string that is not empty, an object with such a
  \<open>length\<close> property.\<close>

definition log_throws :: "(json \<Rightarrow> jsnum) \<Rightarrow> json option \<Rightarrow> bool" where
  "log_throws engine v =
     (case v of
        Some (JStr s) \<Rightarrow> s \<noteq> []
      | Some (JObj ms) \<Rightarrow> js_gt (to_number engine (jget (JObj ms) ''length'')) 0
      | _ \<Rightarrow> False)"

text \<open>\<open>v || []\<close>.\<close>

definition or_empty :: "json option \<Rightarrow> json option" where
  "or_empty v = (if truthy v then v else Some (JArr []))"

text \<open>The body of the \<open>try\<close> block, for a list of expected overlays that is not empty.\<close>

definition validate_body :: "validate_env \<Rightarrow> json list \<Rightarrow> validation_error + validation_result" where
  "validate_body env expectedOverlays =
     (if \<not> edited_readable env then Inl ImageUnreadable
      else if JNull \<in> set expectedOverlays then Inl BadValue
      else case anthropic env of
        None \<Rightarrow> Inl RequestFailed
      | Some [] \<Rightarrow> Inl BadValue
      | Some (None # blocks) \<Rightarrow> Inl BadValue
      | Some (Some responseText # blocks) \<Rightarrow>
          (case match_object ''all_translated'' responseText of
             None \<Rightarrow> Inr (accepted ''Validation inconclusive'')
           | Some jsonMatch \<Rightarrow>
               (case JSON_parse jsonMatch of
                  None \<Rightarrow> Inl SyntaxError
                | Some validation \<Rightarrow>
                    if validation = JNull then Inl BadValue
                    else
                      (let success = success_of (toNumber env) validation
                       in if \<not> truthy success \<and>
                             (log_throws (toNumber env) (jget validation ''untranslated_chinese'') \<or>
                              log_throws (toNumber env) (jget validation ''missing_english''))
                          then Inl BadValue
                          else Inr \<lparr>success = success,
                                    quality_score = jget validation ''quality_score'',
                                    reason = jget validation ''reason'',
                                    untranslated = or_empty (jget validation ''untranslated_chinese''),
                                    missing = or_empty (jget validation ''missing_english''),
                                    gibberish = jget validation ''gibberish_detected''\<rparr>))))"

text \<open>The function: nothing to validate is a success, and so is every exception.\<close>

definition validateImageTranslation :: "validate_env \<Rightarrow> json list option \<Rightarrow> validation_result" where
  "validateImageTranslation env expectedOverlays =
     (case expectedOverlays of
        None \<Rightarrow> accepted ''No overlays to validate''
      | Some [] \<Rightarrow> accepted ''No overlays to validate''
      | Some (overlay # overlays) \<Rightarrow>
          (case validate_body env (overlay # overlays) of
             Inl e \<Rightarrow> accepted ''Validation error - assuming success''
           | Inr result \<Rightarrow> result))"


section \<open>Example inputs\<close>








text \<open>Three speech-recognition services: one rejects the second request as invalid,
  one answers the third request, one is down.\<close>

definition demo_error :: "int \<Rightarrow> api_error" where
  "demo_error code = \<lparr>error_status = Some code, error_message = ''service error''\<rparr>"

definition demo_response :: whisper_response where
  "demo_response =
     \<lparr>response_language = Some ''chinese'', response_duration = Some 6,
      response_segments = Some [\<lparr>start = 0, end' = 3, text' = '' hao chi ''\<rparr>]\<rparr>"

definition whisper_rejects :: "nat \<Rightarrow> api_error + whisper_response" where
  "whisper_rejects n = (if n = 1 then Inl (demo_error 503) else Inl (demo_error 400))"

definition whisper_recovers :: "nat \<Rightarrow> api_error + whisper_response" where
  "whisper_recovers n = (if n < 3 then Inl (demo_error 429) else Inr demo_response)"

definition whisper_down :: "nat \<Rightarrow> api_error + whisper_response" where
  "whisper_down n = Inl (demo_error 500)"




text \<open>Four responses of the classifier, each continuing the prefill: clean; with a
  single-quoted value and a trailing comma; cut off in the second overlay; cut off inside
  a string of the first overlay.\<close>

definition response_clean :: string where
  \<open>response_clean = ''{"index": 0, "chinese": "ni hao", "english": "hello"}]}''\<close>


definition response_lost :: string where
  \<open>response_lost = ''{"index": 0, "chinese": "ni h''\<close>





definition hello_overlays :: json where
  "hello_overlays =
     JObj [(''overlays'',
       JArr [JObj [(''index'', JNum 0), (''chinese'', JStr ''ni hao''), (''english'', JStr ''hello'')]])]"

text \<open>Three paragraphs in an image of 1000 by 800 pixels: a stamp of 15 by 10 pixels,
  a tall caption of 15 by 200 and a wide one of 300 by 10.\<close>

definition demo_box :: "string \<Rightarrow> int \<Rightarrow> int \<Rightarrow> int \<Rightarrow> int \<Rightarrow> vision_paragraph" where
  "demo_box t x y w h =
     \<lparr>words = [[t]],
      vertices = [\<lparr>vx = Some x, vy = Some y\<rparr>, \<lparr>vx = Some (x + w), vy = Some y\<rparr>,
                  \<lparr>vx = Some (x + w), vy = Some (y + h)\<rparr>, \<lparr>vx = Some x, vy = Some (y + h)\<rparr>]\<rparr>"

definition demo_paragraphs :: "vision_paragraph list" where
  "demo_paragraphs =
     [demo_box ''stamp'' 900 780 15 10, demo_box ''tall'' 100 100 15 200,
      demo_box ''wide'' 200 400 300 10]"

text \<open>Runs of the classifiers: one whose first response is cut short and whose second
  is whole, one whose responses are all cut short, one without the text-detection
  service, one whose requests all throw.\<close>

definition env_retry :: google_env where
  "env_retry =
     \<lparr>vision = Some (Some [[[demo_box ''tall'' 100 100 15 200]]]),
      metadata = Some (1000, 800),
      readable = True,
      haiku = (\<lambda>n bs. if n = 0 then Some response_lost else Some response_clean),
      inherited_member = (\<lambda>name. name \<in> {''map'', ''filter'', ''constructor''})\<rparr>"

definition hello_overlay :: overlay where
  "hello_overlay =
     \<lparr>overlay_chinese = Some (JStr ''ni hao''), overlay_english = Some (JStr ''hello''),
      isAuthorOverlay = True,
      position = Some \<lparr>x_percent = Some (Fin 10), y_percent = Some (Fin 12.5)\<rparr>,
      size' = Some \<lparr>width_percent = Some (Fin 1.5), height_percent = Some (Fin 25)\<rparr>\<rparr>"

text \<open>Sixteen blocks, so two batches: the first response and the one to the batch of
  fifteen are cut short, the one to the last block is whole.\<close>

definition env_batches :: google_env where
  "env_batches =
     env_retry
       \<lparr>vision := Some (Some [[replicate 16 (demo_box ''tall'' 100 100 15 200)]]),
        haiku := (\<lambda>n bs. if n = 2 then Some response_clean else Some response_lost)\<rparr>"

text \<open>The blocks of sixteen copies of one paragraph.\<close>

definition tall_block :: "nat \<Rightarrow> text_block" where
  "tall_block i =
     \<lparr>tb_index = i, tb_text = ''tall'', tb_x = 100, tb_y = 100, tb_width = 15, tb_height = 200,
      tb_x_percent = Fin 10, tb_y_percent = Fin 12.5,
      tb_width_percent = Fin 1.5, tb_height_percent = Fin 25\<rparr>"

definition env_gibberish :: google_env where
  "env_gibberish = env_retry\<lparr>haiku := (\<lambda>n bs. Some response_lost)\<rparr>"

definition env_offline :: google_env where
  "env_offline = env_retry\<lparr>vision := None\<rparr>"

definition env_refused :: google_env where
  "env_refused = env_retry\<lparr>haiku := (\<lambda>n bs. None)\<rparr>"

definition claude_offline :: claude_env where
  "claude_offline = \<lparr>image_readable = True, claude = None\<rparr>"

definition claude_gibberish :: claude_env where
  "claude_gibberish = \<lparr>image_readable = True, claude = Some response_lost\<rparr>"

text \<open>Calls of the validator: one expected overlay, and responses that reject the
  edit, accept it, score it 79, stop before the closing brace, and write a value that is no JSON.\<close>

definition demo_expected :: "json list option" where
  "demo_expected = Some [JObj [(''chinese'', JStr ''ni hao''), (''english'', JStr ''hello'')]]"

definition verdict_rejected :: string where
  \<open>verdict_rejected = ''Here is my analysis: {"all_translated": false, "untranslated_chinese": ["ni hao"], "missing_english": ["hello"], "gibberish_detected": false, "quality_score": 35, "reason": "still Chinese"}''\<close>

definition verdict_passed :: string where
  \<open>verdict_passed = ''{"all_translated": true, "gibberish_detected": false, "quality_score": 92, "reason": "ok"}''\<close>

definition verdict_low :: string where
  \<open>verdict_low = ''{"all_translated": true, "gibberish_detected": false, "quality_score": 79, "reason": "blurry"}''\<close>

definition verdict_broken :: string where
  \<open>verdict_broken = ''{"all_translated": true, "quality_score": 9''\<close>

definition verdict_unquoted :: string where
  \<open>verdict_unquoted = ''{"all_translated": yes}''\<close>

definition validator :: "string option list option \<Rightarrow> validate_env" where
  "validator message = \<lparr>edited_readable = True, anthropic = message, toNumber = (\<lambda>v. NaN)\<rparr>"



section \<open>Properties of the timing stage\<close>
















section \<open>One record per segment, anchors kept\<close>











section \<open>The retry policy of the transcription\<close>

lemma retry_loop_4: "retry_loop whisper 4 (Some e) = ([], Inl (WhisperFailedAfter 3 (error_message e)))"
  by (simp add: retry_loop.simps MAX_RETRIES_def)

lemma retry_loop_3:
  "retry_loop whisper 3 l =
     (case whisper 3 of
        Inr r \<Rightarrow> ([Sleep 8000, Request 3], Inr (parse_response r))
      | Inl e \<Rightarrow> if error_status e = Some 400
                 then ([Sleep 8000, Request 3], Inl (WhisperRejected (error_message e)))
                 else ([Sleep 8000, Request 3], Inl (WhisperFailedAfter 3 (error_message e))))"
proof -
  have s: "Suc 3 = 4" by simp
  show ?thesis
    by (subst retry_loop.simps) (simp add: MAX_RETRIES_def s retry_loop_4 split: sum.splits)
qed

lemma retry_loop_2:
  "retry_loop whisper 2 l =
     (case whisper 2 of
        Inr r \<Rightarrow> ([Sleep 4000, Request 2], Inr (parse_response r))
      | Inl e \<Rightarrow> if error_status e = Some 400
                 then ([Sleep 4000, Request 2], Inl (WhisperRejected (error_message e)))
                 else (case retry_loop whisper 3 (Some e) of
                         (events, r) \<Rightarrow> ([Sleep 4000, Request 2] @ events, r)))"
proof -
  have s: "Suc 2 = 3" by simp
  show ?thesis
    by (subst retry_loop.simps) (simp add: MAX_RETRIES_def s split: sum.splits)
qed

lemma retry_loop_1:
  "retry_loop whisper (Suc 0) l =
     (case whisper (Suc 0) of
        Inr r \<Rightarrow> ([Request (Suc 0)], Inr (parse_response r))
      | Inl e \<Rightarrow> if error_status e = Some 400
                 then ([Request (Suc 0)], Inl (WhisperRejected (error_message e)))
                 else (case retry_loop whisper 2 (Some e) of
                         (events, r) \<Rightarrow> ([Request (Suc 0)] @ events, r)))"
proof -
  have s: "Suc (Suc 0) = 2" by simp
  show ?thesis
    by (subst retry_loop.simps) (simp add: MAX_RETRIES_def s split: sum.splits)
qed

lemmas retry_unfold = retry_loop_1 retry_loop_2 retry_loop_3

lemma transcribeAudio_loop:
  "\<not> falsy_env apiKey \<Longrightarrow> real bytes / 1024 / 1024 \<le> 25 \<Longrightarrow>
   transcribeAudio apiKey (Some bytes) whisper = retry_loop whisper 1 None"
  by (simp add: transcribeAudio_def)

lemma k123: "1 \<le> k \<Longrightarrow> k \<le> 3 \<Longrightarrow> k = 1 \<or> k = 2 \<or> k = (3::nat)"
  by arith

lemma before2: "(\<forall>j. 1 \<le> j \<and> j < (2::nat) \<longrightarrow> P j) = P 1"
  by (metis One_nat_def Suc_1 le_refl less_Suc_eq_le less_2_cases_iff not_less_eq_eq)

lemma before3: "(\<forall>j. 1 \<le> j \<and> j < (3::nat) \<longrightarrow> P j) = (P 1 \<and> P 2)"
proof -
  have "\<And>j::nat. 1 \<le> j \<and> j < 3 \<longleftrightarrow> j = 1 \<or> j = 2" by arith
  then show ?thesis by auto
qed

lemma upto3: "(\<forall>j. 1 \<le> j \<and> j \<le> (3::nat) \<longrightarrow> P j) = (P 1 \<and> P 2 \<and> P 3)"
proof -
  have "\<And>j::nat. 1 \<le> j \<and> j \<le> 3 \<longleftrightarrow> j = 1 \<or> j = 2 \<or> j = 3" by arith
  then show ?thesis by auto
qed

lemma upt_small:
  "[Suc 0..<Suc (Suc 0)] = [Suc 0]" "[Suc 0..<2] = [Suc 0]"
  "[Suc 0..<3] = [Suc 0, 2]" "[Suc 0..<4] = [Suc 0, 2, 3]"
proof -
  have n: "(2::nat) = Suc (Suc 0)" "(3::nat) = Suc (Suc (Suc 0))"
    "(4::nat) = Suc (Suc (Suc (Suc 0)))" by simp_all
  show "[Suc 0..<Suc (Suc 0)] = [Suc 0]" by simp
  show "[Suc 0..<2] = [Suc 0]" by (simp add: n)
  show "[Suc 0..<3] = [Suc 0, 2]" by (simp add: n)
  show "[Suc 0..<4] = [Suc 0, 2, 3]" by (simp add: n)
qed

text \<open>
  C7. Once the key, the file and its size have passed step 1, \<open>transcribeAudio\<close>
  sends at most three requests. A request that fails with status 400 is never followed
  by another one: the function raises at once. After any other failure the next
  attempt \<open>n\<close> waits \<open>2000 * 2 ^ (n - 1)\<close> milliseconds and asks again; the first
  answer is returned. The function raises only on a 400, or after all three attempts
  have failed.
\<close>

theorem transcribeAudio_retry_policy:
  fixes apiKey :: "string option" and bytes :: nat
    and whisper :: "nat \<Rightarrow> api_error + whisper_response"
  defines "run \<equiv> transcribeAudio apiKey (Some bytes) whisper"
  assumes key: "\<not> falsy_env apiKey" and size: "real bytes / 1024 / 1024 \<le> 25"
  shows "(\<forall>k e. 1 \<le> k \<and> k \<le> 3 \<and> (\<forall>j. 1 \<le> j \<and> j < k \<longrightarrow> fails_retryably whisper j) \<and>
            whisper k = Inl e \<and> error_status e = Some 400 \<longrightarrow>
            snd run = Inl (WhisperRejected (error_message e)) \<and> requests (fst run) = [1..<Suc k]) \<and>
         (\<forall>k r. 1 \<le> k \<and> k \<le> 3 \<and> (\<forall>j. 1 \<le> j \<and> j < k \<longrightarrow> fails_retryably whisper j) \<and>
            whisper k = Inr r \<longrightarrow>
            snd run = Inr (parse_response r) \<and> requests (fst run) = [1..<Suc k]) \<and>
         ((\<forall>j. 1 \<le> j \<and> j \<le> 3 \<longrightarrow> fails_retryably whisper j) \<longrightarrow>
            fst run = [Request 1, Sleep 4000, Request 2, Sleep 8000, Request 3] \<and>
            (\<exists>e. whisper 3 = Inl e \<and> snd run = Inl (WhisperFailedAfter 3 (error_message e)))) \<and>
         sleeps (fst run) = map (\<lambda>n. 2000 * 2 ^ (n - 1)) (tl (requests (fst run))) \<and>
         length (requests (fst run)) \<le> 3 \<and>
         (\<forall>err. snd run = Inl err \<longrightarrow>
            (\<exists>e. whisper (last (requests (fst run))) = Inl e \<and> error_status e = Some 400 \<and>
                 err = WhisperRejected (error_message e)) \<or>
            (requests (fst run) = [1, 2, 3] \<and>
             (\<forall>j. 1 \<le> j \<and> j \<le> 3 \<longrightarrow> fails_retryably whisper j)))"
  (is "?reject \<and> ?succeed \<and> ?exhaust \<and> ?backoff \<and> ?cap \<and> ?raise")
proof -
  have run: "run = retry_loop whisper 1 None"
    unfolding run_def using key size by (rule transcribeAudio_loop)
  have ?reject
  proof (intro allI impI)
    fix k e
    assume a: "1 \<le> k \<and> k \<le> 3 \<and> (\<forall>j. 1 \<le> j \<and> j < k \<longrightarrow> fails_retryably whisper j) \<and>
            whisper k = Inl e \<and> error_status e = Some 400"
    then have w: "whisper k = Inl e" "error_status e = Some 400"
      and f: "\<And>j. 1 \<le> j \<Longrightarrow> j < k \<Longrightarrow> fails_retryably whisper j" by auto
    from a consider "k = 1" | "k = 2" | "k = 3" using k123 by blast
    then show "snd run = Inl (WhisperRejected (error_message e)) \<and> requests (fst run) = [1..<Suc k]"
    proof cases
      case 1
      then show ?thesis using w
        by (simp add: run retry_unfold requests_def upt_small)
    next
      case 2
      then have "fails_retryably whisper 1" using f by simp
      then show ?thesis using w 2
        by (auto simp: run retry_unfold requests_def upt_small fails_retryably_def
            split: sum.splits)
    next
      case 3
      then have "fails_retryably whisper 1" "fails_retryably whisper 2" using f by simp_all
      then show ?thesis using w 3
        by (auto simp: run retry_unfold requests_def upt_small fails_retryably_def
            split: sum.splits)
    qed
  qed
  moreover have ?succeed
  proof (intro allI impI)
    fix k r
    assume a: "1 \<le> k \<and> k \<le> 3 \<and> (\<forall>j. 1 \<le> j \<and> j < k \<longrightarrow> fails_retryably whisper j) \<and>
            whisper k = Inr r"
    then have w: "whisper k = Inr r"
      and f: "\<And>j. 1 \<le> j \<Longrightarrow> j < k \<Longrightarrow> fails_retryably whisper j" by auto
    from a consider "k = 1" | "k = 2" | "k = 3" using k123 by blast
    then show "snd run = Inr (parse_response r) \<and> requests (fst run) = [1..<Suc k]"
    proof cases
      case 1
      then show ?thesis using w
        by (simp add: run retry_unfold requests_def upt_small)
    next
      case 2
      then have "fails_retryably whisper 1" using f by simp
      then show ?thesis using w 2
        by (auto simp: run retry_unfold requests_def upt_small fails_retryably_def
            split: sum.splits)
    next
      case 3
      then have "fails_retryably whisper 1" "fails_retryably whisper 2" using f by simp_all
      then show ?thesis using w 3
        by (auto simp: run retry_unfold requests_def upt_small fails_retryably_def
            split: sum.splits)
    qed
  qed
  moreover have ?exhaust
  proof
    assume "\<forall>j. 1 \<le> j \<and> j \<le> 3 \<longrightarrow> fails_retryably whisper j"
    then have "fails_retryably whisper 1" "fails_retryably whisper 2" "fails_retryably whisper 3"
      by simp_all
    then show "fst run = [Request 1, Sleep 4000, Request 2, Sleep 8000, Request 3] \<and>
            (\<exists>e. whisper 3 = Inl e \<and> snd run = Inl (WhisperFailedAfter 3 (error_message e)))"
      by (auto simp: run retry_unfold fails_retryably_def split: sum.splits)
  qed
  moreover have ?backoff
    by (auto simp: run retry_unfold requests_def sleeps_def split: sum.splits)
  moreover have ?cap
    by (auto simp: run retry_unfold requests_def split: sum.splits)
  moreover have ?raise
  proof (intro allI impI)
    fix err
    assume e: "snd run = Inl err"
    show "(\<exists>e. whisper (last (requests (fst run))) = Inl e \<and> error_status e = Some 400 \<and>
                 err = WhisperRejected (error_message e)) \<or>
            (requests (fst run) = [1, 2, 3] \<and>
             (\<forall>j. 1 \<le> j \<and> j \<le> 3 \<longrightarrow> fails_retryably whisper j))"
    proof (cases "fails_retryably whisper 1 \<and> fails_retryably whisper 2 \<and> fails_retryably whisper 3")
      case True
      then have "\<forall>j. 1 \<le> j \<and> j \<le> 3 \<longrightarrow> fails_retryably whisper j"
        by (simp only: upto3)
      moreover have "requests (fst run) = [1, 2, 3]"
        using True by (auto simp: run retry_unfold requests_def fails_retryably_def split: sum.splits)
      ultimately show ?thesis by blast
    next
      case False
      then have "\<exists>e. whisper (last (requests (fst run))) = Inl e \<and> error_status e = Some 400 \<and>
                 err = WhisperRejected (error_message e)"
        using e
        by (auto simp: run retry_unfold requests_def fails_retryably_def split: sum.splits if_splits)
      then show ?thesis by blast
    qed
  qed
  ultimately show ?thesis by blast
qed


theorem transcribeAudio_retry_policy_witness:
  "snd (transcribeAudio (Some ''sk'') (Some 1048576) whisper_rejects) =
     Inl (WhisperRejected ''service error'') \<and>
   requests (fst (transcribeAudio (Some ''sk'') (Some 1048576) whisper_rejects)) = [1, 2] \<and>
   snd (transcribeAudio (Some ''sk'') (Some 1048576) whisper_recovers) =
     Inr (parse_response demo_response) \<and>
   requests (fst (transcribeAudio (Some ''sk'') (Some 1048576) whisper_recovers)) = [1, 2, 3] \<and>
   fst (transcribeAudio (Some ''sk'') (Some 1048576) whisper_down) =
     [Request 1, Sleep 4000, Request 2, Sleep 8000, Request 3] \<and>
   snd (transcribeAudio (Some ''sk'') (Some 1048576) whisper_down) =
     Inl (WhisperFailedAfter 3 ''service error'')"
proof -
  have key: "\<not> falsy_env (Some ''sk'')" by (simp add: falsy_env_def)
  have size: "real 1048576 / 1024 / 1024 \<le> 25" by simp
  note pol = transcribeAudio_retry_policy[OF key size]
  have a: "snd (transcribeAudio (Some ''sk'') (Some 1048576) whisper_rejects) =
     Inl (WhisperRejected (error_message (demo_error 400))) \<and>
     requests (fst (transcribeAudio (Some ''sk'') (Some 1048576) whisper_rejects)) = [1..<Suc 2]"
    by (rule pol[of whisper_rejects, THEN conjunct1, rule_format, of 2 "demo_error 400"])
       (auto simp: whisper_rejects_def fails_retryably_def demo_error_def)
  have b: "snd (transcribeAudio (Some ''sk'') (Some 1048576) whisper_recovers) =
     Inr (parse_response demo_response) \<and>
     requests (fst (transcribeAudio (Some ''sk'') (Some 1048576) whisper_recovers)) = [1..<Suc 3]"
    by (rule pol[of whisper_recovers, THEN conjunct2, THEN conjunct1, rule_format, of 3 demo_response])
       (auto simp: whisper_recovers_def fails_retryably_def demo_error_def)
  have c: "fst (transcribeAudio (Some ''sk'') (Some 1048576) whisper_down) =
     [Request 1, Sleep 4000, Request 2, Sleep 8000, Request 3] \<and>
     (\<exists>e. whisper_down 3 = Inl e \<and>
        snd (transcribeAudio (Some ''sk'') (Some 1048576) whisper_down) =
        Inl (WhisperFailedAfter 3 (error_message e)))"
    by (rule pol[of whisper_down, THEN conjunct2, THEN conjunct2, THEN conjunct1, rule_format])
       (auto simp: whisper_down_def fails_retryably_def demo_error_def)
  have u: "[1..<Suc 2] = [1, 2::nat]" "[1..<Suc 3] = [1, 2, 3::nat]"
    by (simp_all add: upt_rec)
  show ?thesis
    using a b c u by (auto simp: demo_error_def whisper_down_def)
qed


section \<open>The duration of the assembled track\<close>

















































section \<open>The three parse attempts\<close>



lemma complete_top:
  assumes "complete v [] = Some (m', st')"
  shows "m' = MDone v \<and> st' = []"
  using assms by simp



lemma object_at_bottom_single:
  "object_at_bottom [f] \<longleftrightarrow> (\<forall>xs. f \<noteq> FArr xs)"
  by (cases f) (simp_all add: object_at_bottom_def)





























section \<open>The size filter of the classifier\<close>

lemma js_lt_percent: "0 < c \<Longrightarrow> js_lt (percent a whole) c \<longleftrightarrow> real_of_int a < c / 100 * real whole"
  by (auto simp: percent_def js_div_def js_scale_def js_lt_def field_simps)

lemma too_small_iff:
  "too_small (percent w imgWidth) (percent h imgHeight) \<longleftrightarrow>
     real_of_int w < 2 / 100 * real imgWidth \<and> real_of_int h < 1.5 / 100 * real imgHeight"
  by (simp add: too_small_def MIN_WIDTH_PERCENT_def MIN_HEIGHT_PERCENT_def js_lt_percent)

lemma extract_blocks_kept:
  "extract_blocks imgWidth imgHeight acc pars = Inr blocks \<Longrightarrow>
     (\<forall>par \<in> set pars. 3 \<le> length (vertices par)) \<and>
     map (\<lambda>b. (tb_width b, tb_height b, tb_text b)) blocks =
       map (\<lambda>b. (tb_width b, tb_height b, tb_text b)) acc @
       map (\<lambda>par. (box_width par, box_height par, paragraph_text par))
         (filter (\<lambda>par. \<not> tiny_in_both imgWidth imgHeight par) pars) \<and>
     map tb_index blocks = map tb_index acc @ [length acc ..< length blocks]"
proof (induction pars arbitrary: acc)
  case Nil
  then show ?case by simp
next
  case (Cons par rest)
  from Cons.prems have len: "0 < length (vertices par)" "2 < length (vertices par)"
    by (auto simp: vertex_at_def split: if_splits sum.splits)
  have t: "too_small (percent (box_width par) imgWidth) (percent (box_height par) imgHeight)
             \<longleftrightarrow> tiny_in_both imgWidth imgHeight par"
    by (simp add: too_small_iff tiny_in_both_def)
  show ?case
  proof (cases "tiny_in_both imgWidth imgHeight par")
    case True
    with Cons.prems len t have "extract_blocks imgWidth imgHeight acc rest = Inr blocks"
      by (simp add: vertex_at_def Let_def box_width_def box_height_def)
    from Cons.IH[OF this] True len show ?thesis by simp
  next
    case False
    define b where "b = \<lparr>tb_index = length acc, tb_text = paragraph_text par,
        tb_x = coordinate (vx (vertices par ! 0)), tb_y = coordinate (vy (vertices par ! 0)),
        tb_width = box_width par, tb_height = box_height par,
        tb_x_percent = percent (coordinate (vx (vertices par ! 0))) imgWidth,
        tb_y_percent = percent (coordinate (vy (vertices par ! 0))) imgHeight,
        tb_width_percent = percent (box_width par) imgWidth,
        tb_height_percent = percent (box_height par) imgHeight\<rparr>"
    from Cons.prems len t False have "extract_blocks imgWidth imgHeight (acc @ [b]) rest = Inr blocks"
      by (simp add: vertex_at_def Let_def box_width_def box_height_def b_def paragraph_text_def)
    from Cons.IH[OF this] have ih:
      "\<forall>par \<in> set rest. 3 \<le> length (vertices par)"
      "map (\<lambda>b. (tb_width b, tb_height b, tb_text b)) blocks =
         map (\<lambda>b. (tb_width b, tb_height b, tb_text b)) (acc @ [b]) @
         map (\<lambda>par. (box_width par, box_height par, paragraph_text par))
           (filter (\<lambda>par. \<not> tiny_in_both imgWidth imgHeight par) rest)"
      "map tb_index blocks = map tb_index (acc @ [b]) @ [length (acc @ [b]) ..< length blocks]"
      by simp_all
    from ih(3) have "length blocks = length (acc @ [b]) + length [length (acc @ [b]) ..< length blocks]"
      by (metis length_append length_map)
    then have le: "Suc (length acc) \<le> length blocks" by simp
    have idx: "map tb_index blocks = map tb_index acc @ [length acc ..< length blocks]"
      using ih(3) le by (simp add: b_def upt_conv_Cons)
    show ?thesis using ih(1,2) idx False len by (simp add: b_def)
  qed
qed

text \<open>
  C9. The size filter discards a paragraph if and only if its width is below 2% of the
  image's width and its height is below 1.5% of the image's height, both at once: the
  blocks that the loop keeps are, in order, the paragraphs that are not tiny in both
  dimensions. (With JavaScript's division this holds for an image of width or height 0
  as well.)
\<close>

theorem size_filter_rejects_only_tiny_in_both:
  "(too_small (percent w imgWidth) (percent h imgHeight) \<longleftrightarrow>
      real_of_int w < 2 / 100 * real imgWidth \<and> real_of_int h < 1.5 / 100 * real imgHeight) \<and>
   (\<forall>blocks. extract_blocks imgWidth imgHeight [] pars = Inr blocks \<longrightarrow>
      map (\<lambda>b. (tb_width b, tb_height b, tb_text b)) blocks =
        map (\<lambda>par. (box_width par, box_height par, paragraph_text par))
          (filter (\<lambda>par. \<not> tiny_in_both imgWidth imgHeight par) pars))"
  using too_small_iff extract_blocks_kept[of imgWidth imgHeight "[]" pars] by simp

lemma demo_extract:
  "\<exists>blocks. extract_blocks 1000 800 [] demo_paragraphs = Inr blocks"
  by (simp add: demo_paragraphs_def demo_box_def vertex_at_def coordinate_def Let_def
      too_small_def percent_def js_div_def js_scale_def js_lt_def MIN_WIDTH_PERCENT_def
      MIN_HEIGHT_PERCENT_def)

theorem size_filter_rejects_only_tiny_in_both_witness:
  "\<exists>blocks. extract_blocks 1000 800 [] demo_paragraphs = Inr blocks \<and>
     map (\<lambda>b. (tb_width b, tb_height b, tb_text b)) blocks = [(15, 200, ''tall''), (300, 10, ''wide'')] \<and>
     too_small (percent 15 1000) (percent 10 800) \<and>
     \<not> too_small (percent 15 1000) (percent 200 800) \<and>
     \<not> too_small (percent 300 1000) (percent 10 800)"
proof -
  from demo_extract obtain blocks where b: "extract_blocks 1000 800 [] demo_paragraphs = Inr blocks"
    by blast
  note m = size_filter_rejects_only_tiny_in_both
  have f: "filter (\<lambda>par. \<not> tiny_in_both 1000 800 par) demo_paragraphs =
             [demo_box ''tall'' 100 100 15 200, demo_box ''wide'' 200 400 300 10]"
    by (simp add: demo_paragraphs_def tiny_in_both_def box_width_def box_height_def demo_box_def
        coordinate_def)
  have f1: "map (\<lambda>b. (tb_width b, tb_height b, tb_text b)) blocks =
          [(15, 200, ''tall''), (300, 10, ''wide'')]"
    using m[where imgWidth=1000 and imgHeight=800 and pars=demo_paragraphs, THEN conjunct2, rule_format, OF b]
    by (simp add: f) (simp add: box_width_def box_height_def paragraph_text_def demo_box_def
        coordinate_def)
  have f2: "too_small (percent 15 1000) (percent 10 800)"
    using m[of 15 1000 10 800, THEN conjunct1] by simp
  have f3: "\<not> too_small (percent 15 1000) (percent 200 800)"
    using m[of 15 1000 200 800, THEN conjunct1] by simp
  have f4: "\<not> too_small (percent 300 1000) (percent 10 800)"
    using m[of 300 1000 10 800, THEN conjunct1] by simp
  show ?thesis
    by (intro exI[of _ blocks] conjI) (rule b, rule f1, rule f2, rule f3, rule f4)
qed


section \<open>The classifiers never raise\<close>

lemma batches_Nil: "batches [] = []"
  by (simp add: batches.simps)

lemma batches_Cons:
  "xs \<noteq> [] \<Longrightarrow> batches xs = take BATCH_SIZE xs # batches (drop BATCH_SIZE xs)"
  by (subst batches.simps) simp

lemma batches_length: "length (batches xs) = (length xs + 14) div 15"
proof (induction xs rule: batches.induct)
  case (1 xs)
  show ?case
  proof (cases "xs = []")
    case True
    then show ?thesis by (simp add: batches_Nil)
  next
    case False
    then have pos: "0 < length xs" by simp
    have "length (batches xs) = Suc ((length xs - 15 + 14) div 15)"
      using "1.IH"[OF False] False by (simp add: batches_Cons BATCH_SIZE_def)
    also have "\<dots> = (length xs + 14) div 15"
      using pos by (cases "length xs < 15") (simp_all add: div_if)
    finally show ?thesis .
  qed
qed

lemma batches_nth:
  "i < length (batches xs) \<Longrightarrow> batches xs ! i = take 15 (drop (15 * i) xs)"
proof (induction xs arbitrary: i rule: batches.induct)
  case (1 xs)
  show ?case
  proof (cases "xs = []")
    case True
    with "1.prems" show ?thesis by (simp add: batches_Nil)
  next
    case False
    show ?thesis
    proof (cases i)
      case 0
      with False show ?thesis by (simp add: batches_Cons BATCH_SIZE_def)
    next
      case (Suc j)
      with "1.prems" False have j: "j < length (batches (drop BATCH_SIZE xs))"
        by (simp add: batches_Cons)
      from "1.IH"[OF False j] Suc False show ?thesis
        by (simp add: batches_Cons BATCH_SIZE_def add.commute)
    qed
  qed
qed

lemma batch_loop_collects:
  "\<forall>k<length bss. \<not> batch_throws hk (n + k) (bss ! k) \<Longrightarrow>
   batch_loop hk n acc bss =
     Inr (acc @ concat (map (\<lambda>k. contribution hk (n + k) (bss ! k)) [0..<length bss]))"
proof (induction bss arbitrary: n acc)
  case Nil
  then show ?case by simp
next
  case (Cons b bss)
  from Cons.prems have h: "\<not> batch_throws hk n b"
    and t: "\<forall>k<length bss. \<not> batch_throws hk (Suc n + k) (bss ! k)"
    by force+
  have m: "map (\<lambda>k. contribution hk (n + k) ((b # bss) ! k)) [0..<length (b # bss)] =
           contribution hk n b # map (\<lambda>k. contribution hk (Suc n + k) (bss ! k)) [0..<length bss]"
    by (simp add: upt_conv_Cons map_Suc_upt[symmetric] del: upt_Suc)
  have s: "batch_loop hk n acc (b # bss) = batch_loop hk (Suc n) (acc @ contribution hk n b) bss"
    using h by (auto simp: batch_throws_def contribution_def split: sum.splits option.splits)
  show ?case unfolding s m Cons.IH[OF t] by simp
qed

lemma batch_loop_ends:
  "k < length bss \<Longrightarrow> batch_throws hk (n + k) (bss ! k) \<Longrightarrow> \<exists>e. batch_loop hk n acc bss = Inl e"
proof (induction bss arbitrary: n acc k)
  case Nil
  then show ?case by simp
next
  case (Cons b bss)
  show ?case
  proof (cases k)
    case 0
    with Cons.prems show ?thesis
      by (auto simp: batch_throws_def split: sum.splits option.splits)
  next
    case (Suc j)
    with Cons.prems have j: "j < length bss" "batch_throws hk (Suc n + j) (bss ! j)" by simp_all
    from Cons.IH[OF j] have "\<And>acc'. \<exists>e. batch_loop hk (Suc n) acc' bss = Inl e" by blast
    then show ?thesis
      by (auto split: sum.splits option.splits)
  qed
qed

lemma unreadable_contributes_nothing:
  "hk n batch = Some r \<Longrightarrow> snd (parse_overlays r) = None \<Longrightarrow>
   \<not> batch_throws hk n batch \<and> contribution hk n batch = []"
  by (simp add: batch_throws_def contribution_def callHaikuForOverlays_def)

lemma readable_contributes:
  "hk n batch = Some r \<Longrightarrow> snd (parse_overlays r) = Some v \<Longrightarrow>
   jget v ''overlays'' = Some (JArr items) \<Longrightarrow>
   \<not> batch_throws hk n batch \<and> contribution hk n batch = items"
  by (simp add: batch_throws_def contribution_def callHaikuForOverlays_def spread_def)

lemma google_retry_collects:
  assumes "vision env = Some (Some pages)" "pages \<noteq> []" "metadata env = Some (W, H)"
    and "extract_blocks W H [] (concat (concat pages)) = Inr textBlocks" "textBlocks \<noteq> []"
    and "readable env"
    and "callHaikuForOverlays (haiku env) 0 textBlocks = Inr None"
    and "\<forall>k<length (batches textBlocks). \<not> batch_throws (haiku env) (Suc k) (batches textBlocks ! k)"
  shows "analyze_body env =
           map_overlays (inherited_member env) textBlocks
             (concat (map (\<lambda>k. contribution (haiku env) (Suc k) (batches textBlocks ! k))
                [0..<length (batches textBlocks)]))"
proof -
  from assms(8) have "\<forall>k<length (batches textBlocks). \<not> batch_throws (haiku env) (1 + k) (batches textBlocks ! k)"
    by simp
  from batch_loop_collects[OF this, of "[]"]
  have b: "batch_loop (haiku env) 1 [] (batches textBlocks) =
     Inr (concat (map (\<lambda>k. contribution (haiku env) (Suc k) (batches textBlocks ! k))
                [0..<length (batches textBlocks)]))"
    by simp
  show ?thesis
    using assms(1-7) b by (simp add: analyze_body_def)
qed

lemma google_batch_throws:
  assumes "vision env = Some (Some pages)" "metadata env = Some (W, H)"
    and "extract_blocks W H [] (concat (concat pages)) = Inr textBlocks"
    and "unusable (haiku env) 0 textBlocks"
    and "k < length (batches textBlocks)"
    and "batch_throws (haiku env) (Suc k) (batches textBlocks ! k)"
  shows "analyzeImageWithGoogle env = []"
proof -
  from batch_loop_ends[OF assms(5), of "haiku env" 1 "[]"] assms(6)
  obtain e where b: "batch_loop (haiku env) 1 [] (batches textBlocks) = Inl e" by auto
  from assms(4) have "callHaikuForOverlays (haiku env) 0 textBlocks = Inl ClassifierFailed \<or>
               callHaikuForOverlays (haiku env) 0 textBlocks = Inr None"
    by (auto simp: unusable_def callHaikuForOverlays_def split: option.splits)
  then show ?thesis
    using assms(1-3) b
    by (auto simp: analyzeImageWithGoogle_def analyze_body_def split: if_splits)
qed

lemma batch_loop_unusable:
  "\<forall>n bs. unusable hk n bs \<Longrightarrow> batch_loop hk n acc bss = Inr out \<Longrightarrow> out = acc"
proof (induction bss arbitrary: n acc)
  case Nil
  then show ?case by simp
next
  case (Cons b bss)
  from Cons.prems(1) have "unusable hk n b" by blast
  with Cons.prems(2) have "batch_loop hk (Suc n) acc bss = Inr out"
    by (auto simp: unusable_def callHaikuForOverlays_def split: option.splits sum.splits)
  with Cons.IH Cons.prems(1) show ?case by blast
qed

lemma map_overlays_Nil: "map_overlays inh textBlocks [] = Inr []"
  by simp

lemma google_unusable:
  assumes "\<forall>n bs. unusable (haiku env) n bs"
  shows "analyzeImageWithGoogle env = []"
proof (cases "analyze_body env")
  case (Inl e)
  then show ?thesis by (simp add: analyzeImageWithGoogle_def)
next
  case (Inr overlays)
  have "overlays = []"
  proof (rule ccontr)
    assume ne: "overlays \<noteq> []"
    from Inr ne obtain pages W H textBlocks where
      tb: "textBlocks \<noteq> []" and
      c: "(case callHaikuForOverlays (haiku env) 0 textBlocks of
             Inl e \<Rightarrow> Inl e
           | Inr (Some filteredOverlays) \<Rightarrow>
               (case jget filteredOverlays ''overlays'' of
                  Some (JArr items) \<Rightarrow> map_overlays (inherited_member env) textBlocks items
                | _ \<Rightarrow> Inl TypeError)
           | Inr None \<Rightarrow>
               (case batch_loop (haiku env) 1 [] (batches textBlocks) of
                  Inl e \<Rightarrow> Inl e
                | Inr allOverlays \<Rightarrow> map_overlays (inherited_member env) textBlocks allOverlays)) = Inr overlays"
      by (auto simp: analyze_body_def split: option.splits if_splits sum.splits prod.splits)
    from assms have u: "unusable (haiku env) 0 textBlocks" by blast
    then have "callHaikuForOverlays (haiku env) 0 textBlocks = Inl ClassifierFailed \<or>
               callHaikuForOverlays (haiku env) 0 textBlocks = Inr None"
      by (auto simp: unusable_def callHaikuForOverlays_def split: option.splits)
    with c obtain allOverlays where
      b: "batch_loop (haiku env) 1 [] (batches textBlocks) = Inr allOverlays"
      and m: "map_overlays (inherited_member env) textBlocks allOverlays = Inr overlays"
      by (auto split: sum.splits)
    from batch_loop_unusable[OF assms b] m have "overlays = []" by simp
    with ne show False by simp
  qed
  with Inr show ?thesis by (simp add: analyzeImageWithGoogle_def)
qed

lemma google_environment_failures:
  "vision env = None \<or> metadata env = None \<or> \<not> readable env \<Longrightarrow> analyzeImageWithGoogle env = []"
  by (auto simp: analyzeImageWithGoogle_def analyze_body_def
      split: option.splits sum.splits if_splits)

lemma google_first_call_throws:
  "\<forall>bs. haiku env 0 bs = None \<Longrightarrow> analyzeImageWithGoogle env = []"
  by (auto simp: analyzeImageWithGoogle_def analyze_body_def callHaikuForOverlays_def
      split: option.splits sum.splits if_splits)

lemma claude_environment_failures:
  "\<not> image_readable env \<or> claude env = None \<Longrightarrow> analyzeImageText env = []"
  by (auto simp: analyzeImageText_def analyze_text_body_def)

lemma claude_unparseable:
  assumes "claude env = Some r"
    and "match_object ''overlays'' (strip_fences (trim r)) = None \<or>
         (\<exists>m. match_object ''overlays'' (strip_fences (trim r)) = Some m \<and>
              JSON_parse m = None \<and> JSON_parse (cleanup m) = None \<and>
              JSON_parse (repair (cleanup m)) = None)"
  shows "analyzeImageText env = []"
  using assms
  by (auto simp: analyzeImageText_def analyze_text_body_def Let_def)

lemma lost_is_null: "snd (parse_overlays response_lost) = None"
  by code_simp

lemma clean_is_hello: "snd (parse_overlays response_clean) = Some hello_overlays"
  by code_simp

lemma single_batch: "batches [x] = [[x]]"
  by (simp add: batches.simps BATCH_SIZE_def)

lemma env_retry_result: "analyzeImageWithGoogle env_retry = [hello_overlay]"
  by (simp add: analyzeImageWithGoogle_def analyze_body_def env_retry_def demo_box_def
      vertex_at_def coordinate_def Let_def too_small_def percent_def js_div_def js_scale_def
      js_lt_def MIN_WIDTH_PERCENT_def MIN_HEIGHT_PERCENT_def callHaikuForOverlays_def
      lost_is_null clean_is_hello single_batch hello_overlays_def jget_def spread_def
      map_overlay_def block_at_def property_key_def decimal.simps js_or_def truthy_def
      hello_overlay_def)

lemma extract_tall:
  "extract_blocks 1000 800 acc (replicate n (demo_box ''tall'' 100 100 15 200)) =
     Inr (acc @ map (\<lambda>i. tall_block (length acc + i)) [0..<n])"
proof (induction n arbitrary: acc)
  case 0
  then show ?case by simp
next
  case (Suc n)
  have m: "map (\<lambda>i. tall_block (length acc + i)) [0..<Suc n] =
           tall_block (length acc) # map (\<lambda>i. tall_block (Suc (length acc) + i)) [0..<n]"
    by (simp add: upt_conv_Cons map_Suc_upt[symmetric] del: upt_Suc)
  have "extract_blocks 1000 800 acc (demo_box ''tall'' 100 100 15 200 # replicate n (demo_box ''tall'' 100 100 15 200)) =
        extract_blocks 1000 800 (acc @ [tall_block (length acc)]) (replicate n (demo_box ''tall'' 100 100 15 200))"
    by (simp add: demo_box_def vertex_at_def coordinate_def Let_def too_small_def percent_def
        js_div_def js_scale_def js_lt_def MIN_WIDTH_PERCENT_def MIN_HEIGHT_PERCENT_def
        tall_block_def)
  then show ?case unfolding m by (simp add: Suc.IH)
qed

text \<open>
  C6, as the code has it. Neither classifier raises: each returns an overlay list
  whatever its body does, and the list is empty whenever the body throws. The
  text-detection service, the image metadata, the file read or the first classifier
  request failing gives the empty list. A response that holds no JSON object the
  three parse attempts can read gives the empty list in \<open>analyzeImageText\<close>. In
  \<open>analyzeImageWithGoogle\<close> an unreadable first response starts the retry: the
  blocks are asked again in batches of 15, in order; a batch whose response cannot be
  read adds nothing, a batch whose response can be read adds its overlays, and the
  result is made of what the batches added. It is empty when no response can be read,
  and when a request of the retry throws or what it returns cannot be spread.
\<close>

theorem classifier_failures_yield_no_overlays:
  "(\<forall>e. analyze_body env = Inl e \<longrightarrow> analyzeImageWithGoogle env = []) \<and>
   (vision env = None \<or> metadata env = None \<or> \<not> readable env \<longrightarrow>
      analyzeImageWithGoogle env = []) \<and>
   ((\<forall>bs. haiku env 0 bs = None) \<longrightarrow> analyzeImageWithGoogle env = []) \<and>
   ((\<forall>n bs. unusable (haiku env) n bs) \<longrightarrow> analyzeImageWithGoogle env = []) \<and>
   (length (batches blocks) = (length blocks + 14) div 15 \<and>
    (\<forall>i<length (batches blocks). batches blocks ! i = take 15 (drop (15 * i) blocks))) \<and>
   (\<forall>n batch r. haiku env n batch = Some r \<and> snd (parse_overlays r) = None \<longrightarrow>
      \<not> batch_throws (haiku env) n batch \<and> contribution (haiku env) n batch = []) \<and>
   (\<forall>n batch r v items.
      haiku env n batch = Some r \<and> snd (parse_overlays r) = Some v \<and>
      jget v ''overlays'' = Some (JArr items) \<longrightarrow>
      \<not> batch_throws (haiku env) n batch \<and> contribution (haiku env) n batch = items) \<and>
   (\<forall>pages W H textBlocks.
      vision env = Some (Some pages) \<and> pages \<noteq> [] \<and> metadata env = Some (W, H) \<and>
      extract_blocks W H [] (concat (concat pages)) = Inr textBlocks \<and> textBlocks \<noteq> [] \<and>
      readable env \<and> callHaikuForOverlays (haiku env) 0 textBlocks = Inr None \<and>
      (\<forall>k<length (batches textBlocks).
         \<not> batch_throws (haiku env) (Suc k) (batches textBlocks ! k)) \<longrightarrow>
      analyze_body env =
        map_overlays (inherited_member env) textBlocks
          (concat (map (\<lambda>k. contribution (haiku env) (Suc k) (batches textBlocks ! k))
             [0..<length (batches textBlocks)]))) \<and>
   (\<forall>pages W H textBlocks k.
      vision env = Some (Some pages) \<and> metadata env = Some (W, H) \<and>
      extract_blocks W H [] (concat (concat pages)) = Inr textBlocks \<and>
      unusable (haiku env) 0 textBlocks \<and> k < length (batches textBlocks) \<and>
      batch_throws (haiku env) (Suc k) (batches textBlocks ! k) \<longrightarrow>
      analyzeImageWithGoogle env = []) \<and>
   (\<forall>e. analyze_text_body cenv = Inl e \<longrightarrow> analyzeImageText cenv = []) \<and>
   (\<not> image_readable cenv \<or> claude cenv = None \<longrightarrow> analyzeImageText cenv = []) \<and>
   (\<forall>r. claude cenv = Some r \<and>
        (match_object ''overlays'' (strip_fences (trim r)) = None \<or>
         (\<exists>m. match_object ''overlays'' (strip_fences (trim r)) = Some m \<and>
              JSON_parse m = None \<and> JSON_parse (cleanup m) = None \<and>
              JSON_parse (repair (cleanup m)) = None)) \<longrightarrow>
        analyzeImageText cenv = [])"
  (is "?g1 \<and> ?g2 \<and> ?g3 \<and> ?g4 \<and> ?b1 \<and> ?b2 \<and> ?b3 \<and> ?b4 \<and> ?g5 \<and> ?c1 \<and> ?c2 \<and> ?c3")
proof -
  have g1: ?g1 by (simp add: analyzeImageWithGoogle_def)
  have g2: ?g2 using google_environment_failures[of env] by blast
  have g3: ?g3 using google_first_call_throws[of env] by blast
  have g4: ?g4 using google_unusable[of env] by blast
  have b1: ?b1 using batches_length[of blocks] batches_nth[of _ blocks] by blast
  have b2: ?b2 using unreadable_contributes_nothing[of "haiku env"] by blast
  have b3: ?b3 using readable_contributes[of "haiku env"] by blast
  have b4: ?b4
  proof (intro allI impI)
    fix pages W H textBlocks
    assume a: "vision env = Some (Some pages) \<and> pages \<noteq> [] \<and> metadata env = Some (W, H) \<and>
      extract_blocks W H [] (concat (concat pages)) = Inr textBlocks \<and> textBlocks \<noteq> [] \<and>
      readable env \<and> callHaikuForOverlays (haiku env) 0 textBlocks = Inr None \<and>
      (\<forall>k<length (batches textBlocks).
         \<not> batch_throws (haiku env) (Suc k) (batches textBlocks ! k))"
    show "analyze_body env =
        map_overlays (inherited_member env) textBlocks
          (concat (map (\<lambda>k. contribution (haiku env) (Suc k) (batches textBlocks ! k))
             [0..<length (batches textBlocks)]))"
      by (rule google_retry_collects[of env pages W H textBlocks]) (simp_all add: a)
  qed
  have g5: ?g5
  proof (intro allI impI)
    fix pages W H textBlocks k
    assume a: "vision env = Some (Some pages) \<and> metadata env = Some (W, H) \<and>
      extract_blocks W H [] (concat (concat pages)) = Inr textBlocks \<and>
      unusable (haiku env) 0 textBlocks \<and> k < length (batches textBlocks) \<and>
      batch_throws (haiku env) (Suc k) (batches textBlocks ! k)"
    show "analyzeImageWithGoogle env = []"
      by (rule google_batch_throws[of env pages W H textBlocks k]) (simp_all add: a)
  qed
  have c1: ?c1 by (simp add: analyzeImageText_def)
  have c2: ?c2 using claude_environment_failures[of cenv] by blast
  have c3: ?c3
  proof (intro allI impI)
    fix r
    assume a: "claude cenv = Some r \<and>
        (match_object ''overlays'' (strip_fences (trim r)) = None \<or>
         (\<exists>m. match_object ''overlays'' (strip_fences (trim r)) = Some m \<and>
              JSON_parse m = None \<and> JSON_parse (cleanup m) = None \<and>
              JSON_parse (repair (cleanup m)) = None))"
    show "analyzeImageText cenv = []"
      by (rule claude_unparseable[of cenv r]) (simp_all add: a)
  qed
  show ?thesis
    by (intro conjI) (rule g1, rule g2, rule g3, rule g4, rule b1[THEN conjunct1],
        rule b1[THEN conjunct2], rule b2, rule b3, rule b4, rule g5, rule c1, rule c2, rule c3)
qed

lemma lost_has_no_object: "match_object ''overlays'' (strip_fences (trim response_lost)) = None"
  by code_simp

lemma sixteen: "[0..<16] = [0, 1, 2, 3, 4, 5, 6, 7, 8, 9, 10, 11, 12, 13, 14, 15]"
  by code_simp

lemma first_of_sixteen:
  "map_overlays inh (map tall_block [0..<16])
     [JObj [(''index'', JNum 0), (''chinese'', JStr ''ni hao''), (''english'', JStr ''hello'')]] =
   Inr [hello_overlay]"
  by (simp add: sixteen map_overlay_def block_at_def property_key_def decimal.simps jget_def
      js_or_def truthy_def hello_overlay_def tall_block_def)

theorem classifier_failures_yield_no_overlays_witness:
  "analyze_body env_offline = Inl VisionFailed \<and>
   analyzeImageWithGoogle env_offline = [] \<and>
   analyzeImageWithGoogle env_refused = [] \<and>
   snd (parse_overlays response_lost) = None \<and>
   analyzeImageWithGoogle env_gibberish = [] \<and>
   length (batches (map tall_block [0..<16])) = 2 \<and>
   batches (map tall_block [0..<16]) ! 0 = map tall_block [0..<15] \<and>
   batches (map tall_block [0..<16]) ! 1 = [tall_block 15] \<and>
   contribution (haiku env_batches) 1 (map tall_block [0..<15]) = [] \<and>
   analyzeImageWithGoogle env_batches = [hello_overlay] \<and>
   analyze_text_body claude_offline = Inl ClassifierFailed \<and>
   analyzeImageText claude_offline = [] \<and>
   analyzeImageText claude_gibberish = []"
proof -
  note main = classifier_failures_yield_no_overlays
  let ?tb = "map tall_block [0..<16]"
  have b: "analyze_body env_offline = Inl VisionFailed"
    by (simp add: analyze_body_def env_offline_def env_retry_def)
  have f1: "analyzeImageWithGoogle env_offline = []"
    using main[where env=env_offline, THEN conjunct1, rule_format, OF b] .
  have f2: "analyzeImageWithGoogle env_refused = []"
    using main[where env=env_refused, THEN conjunct2, THEN conjunct2, THEN conjunct1]
    by (simp add: env_refused_def)
  have u: "\<forall>n bs. unusable (haiku env_gibberish) n bs"
    by (simp add: unusable_def env_gibberish_def lost_is_null)
  have f3: "analyzeImageWithGoogle env_gibberish = []"
    using main[where env=env_gibberish, THEN conjunct2, THEN conjunct2, THEN conjunct2,
        THEN conjunct1] u by blast
  note rest = main[where env=env_batches and blocks="?tb", THEN conjunct2, THEN conjunct2,
      THEN conjunct2, THEN conjunct2]
  have len: "length (batches ?tb) = 2"
    using rest[THEN conjunct1, THEN conjunct1] by simp
  have nth: "\<And>i. i < 2 \<Longrightarrow> batches ?tb ! i = take 15 (drop (15 * i) ?tb)"
    using rest[THEN conjunct1, THEN conjunct2] len by simp
  have b0: "batches ?tb ! 0 = map tall_block [0..<15]"
    using nth[of 0] by (simp add: take_map)
  have b1: "batches ?tb ! 1 = [tall_block 15]"
    using nth[of 1] by (simp add: drop_map sixteen)
  have h: "\<And>n bs. haiku env_batches n bs = (if n = 2 then Some response_clean else Some response_lost)"
    by (simp add: env_batches_def)
  have k0: "\<not> batch_throws (haiku env_batches) 1 (map tall_block [0..<15]) \<and>
            contribution (haiku env_batches) 1 (map tall_block [0..<15]) = []"
    using rest[THEN conjunct2, THEN conjunct1, rule_format,
        of 1 "map tall_block [0..<15]" response_lost]
    by (simp add: h lost_is_null)
  have k1: "\<not> batch_throws (haiku env_batches) 2 [tall_block 15] \<and>
            contribution (haiku env_batches) 2 [tall_block 15] =
              [JObj [(''index'', JNum 0), (''chinese'', JStr ''ni hao''), (''english'', JStr ''hello'')]]"
    using rest[THEN conjunct2, THEN conjunct2, THEN conjunct1, rule_format,
        of 2 "[tall_block 15]" response_clean hello_overlays]
    by (simp add: h clean_is_hello hello_overlays_def jget_def)
  have ex: "extract_blocks 1000 800 []
              (concat (concat [[replicate 16 (demo_box ''tall'' 100 100 15 200)]])) = Inr ?tb"
    using extract_tall[of "[]" 16] by simp
  have first: "callHaikuForOverlays (haiku env_batches) 0 ?tb = Inr None"
    by (simp add: callHaikuForOverlays_def h lost_is_null)
  have quiet: "\<forall>k<length (batches ?tb). \<not> batch_throws (haiku env_batches) (Suc k) (batches ?tb ! k)"
  proof (intro allI impI)
    fix k assume "k < length (batches ?tb)"
    with len have "k = 0 \<or> k = 1" by auto
    then show "\<not> batch_throws (haiku env_batches) (Suc k) (batches ?tb ! k)"
      using k0 k1 b0 b1 by (auto simp: numeral_2_eq_2)
  qed
  have v: "vision env_batches = Some (Some [[replicate 16 (demo_box ''tall'' 100 100 15 200)]])"
    "metadata env_batches = Some (1000, 800)" "readable env_batches"
    by (simp_all add: env_batches_def env_retry_def)
  have ne: "?tb \<noteq> []" by (simp add: sixteen)
  have body: "analyze_body env_batches =
        map_overlays (inherited_member env_batches) ?tb
          (concat (map (\<lambda>k. contribution (haiku env_batches) (Suc k) (batches ?tb ! k))
             [0..<length (batches ?tb)]))"
    using rest[THEN conjunct2, THEN conjunct2, THEN conjunct2, THEN conjunct1, rule_format,
        of "[[replicate 16 (demo_box ''tall'' 100 100 15 200)]]" 1000 800 ?tb]
      v ex ne first quiet by simp
  have "[0..<2] = [0, 1::nat]" by code_simp
  then have two: "[0..<length (batches ?tb)] = [0, 1]"
    unfolding len .
  have f6: "analyzeImageWithGoogle env_batches = [hello_overlay]"
    unfolding analyzeImageWithGoogle_def body two
    using k0 k1 b0 b1 first_of_sixteen[of "inherited_member env_batches"]
    by (simp add: numeral_2_eq_2)
  have cb: "analyze_text_body claude_offline = Inl ClassifierFailed"
    by (simp add: analyze_text_body_def claude_offline_def)
  note tail = main[where cenv=claude_offline, THEN conjunct2, THEN conjunct2, THEN conjunct2,
      THEN conjunct2, THEN conjunct2, THEN conjunct2, THEN conjunct2, THEN conjunct2, THEN conjunct2]
  have f4: "analyzeImageText claude_offline = []"
    using tail[THEN conjunct1, rule_format, OF cb] .
  have f5: "analyzeImageText claude_gibberish = []"
    using main[where cenv=claude_gibberish, THEN conjunct2, THEN conjunct2, THEN conjunct2,
      THEN conjunct2, THEN conjunct2, THEN conjunct2, THEN conjunct2, THEN conjunct2, THEN conjunct2,
      THEN conjunct2, THEN conjunct2, rule_format, of response_lost]
    by (simp add: claude_gibberish_def lost_has_no_object)
  show ?thesis
    by (intro conjI) (rule b, rule f1, rule f2, rule lost_is_null, rule f3, rule len, rule b0,
        rule b1, rule k0[THEN conjunct2], rule f6, rule cb, rule f4, rule f5)
qed

text \<open>
  The sentence of C6 about JSON parsing does not hold of \<open>analyzeImageWithGoogle\<close>:
  the first response cannot be parsed, the function asks again in batches, and the
  overlay of the second response is returned.
\<close>

theorem classifier_parse_failure_counterexample:
  "haiku env_retry 0 = (\<lambda>bs. Some response_lost) \<and>
   snd (parse_overlays response_lost) = None \<and>
   analyzeImageWithGoogle env_retry = [hello_overlay] \<and>
   analyzeImageWithGoogle env_retry \<noteq> []"
  using lost_is_null env_retry_result by (simp add: env_retry_def)


section \<open>The validator accepts what it cannot check\<close>

lemma success_of_cases:
  "success_of engine v = Some (JBool True) \<or>
   (\<not> truthy (success_of engine v) \<and>
    (\<not> truthy (jget v ''all_translated'') \<or>
     \<not> js_ge (to_number engine (jget v ''quality_score'')) 80 \<or>
     truthy (jget v ''gibberish_detected'')))"
  by (simp add: success_of_def truthy_def)

lemma accepted_success: "success (accepted why) = Some (JBool True)"
  by (simp add: accepted_def)

lemma validate_error_accepted:
  "validate_body env (x # xs) = Inl e \<Longrightarrow>
   validateImageTranslation env (Some (x # xs)) = accepted ''Validation error - assuming success''"
  by (simp add: validateImageTranslation_def)

lemma validate_body_success:
  assumes "validate_body env os = Inr result"
  shows "success result = Some (JBool True) \<or>
         (\<exists>r blocks m v. anthropic env = Some (Some r # blocks) \<and>
            match_object ''all_translated'' r = Some m \<and> JSON_parse m = Some v \<and>
            success result = success_of (toNumber env) v)"
  using assms
  by (auto simp: validate_body_def accepted_def Let_def
      split: if_splits option.splits list.splits)

lemma validate_success:
  "success (validateImageTranslation env expectedOverlays) = Some (JBool True) \<or>
   (\<exists>r blocks m v. anthropic env = Some (Some r # blocks) \<and>
      match_object ''all_translated'' r = Some m \<and> JSON_parse m = Some v \<and>
      success (validateImageTranslation env expectedOverlays) = success_of (toNumber env) v)"
proof (cases expectedOverlays)
  case None
  then show ?thesis by (simp add: validateImageTranslation_def accepted_def)
next
  case (Some os)
  show ?thesis
  proof (cases os)
    case Nil
    with Some show ?thesis by (simp add: validateImageTranslation_def accepted_def)
  next
    case (Cons x xs)
    show ?thesis
    proof (cases "validate_body env (x # xs)")
      case (Inl e)
      with Some Cons show ?thesis by (simp add: validateImageTranslation_def accepted_def)
    next
      case (Inr result)
      with Some Cons have "validateImageTranslation env expectedOverlays = result"
        by (simp add: validateImageTranslation_def)
      with validate_body_success[OF Inr] show ?thesis by simp
    qed
  qed
qed

lemma validate_environment_failures:
  "\<not> edited_readable env \<or> anthropic env = None \<Longrightarrow>
   success (validateImageTranslation env expectedOverlays) = Some (JBool True)"
  by (auto simp: validateImageTranslation_def validate_body_def accepted_def
      split: option.splits list.splits)

lemma validate_unparseable:
  assumes "anthropic env = Some (Some r # blocks)"
    and "match_object ''all_translated'' r = None \<or>
         (\<exists>m. match_object ''all_translated'' r = Some m \<and> JSON_parse m = None)"
  shows "success (validateImageTranslation env expectedOverlays) = Some (JBool True)"
  using assms
  by (auto simp: validateImageTranslation_def validate_body_def accepted_def
      split: option.splits list.splits)

text \<open>
  C10. \<open>validateImageTranslation\<close> never raises: every exception of its body gives
  the object that reports success. When the edited image cannot be read or the
  request fails, and when the response holds no object with the key
  \<open>all_translated\<close> or \<open>JSON.parse\<close> rejects that object, \<open>success\<close> is \<open>true\<close>.
  \<open>success\<close> is anything else only when a response was parsed and its
  \<open>all_translated\<close> is falsy, its \<open>quality_score >= 80\<close> is false, or its
  \<open>gibberish_detected\<close> is truthy; for a response with a boolean, a number and a
  boolean in these fields that is \<open>all_translated\<close> false, a score below 80, or
  gibberish detected.
\<close>

theorem validateImageTranslation_fails_open:
  fixes env :: validate_env and expectedOverlays :: "json list option"
  defines "result \<equiv> validateImageTranslation env expectedOverlays"
  shows
  "(\<forall>x xs e. expectedOverlays = Some (x # xs) \<and> validate_body env (x # xs) = Inl e \<longrightarrow>
      result = accepted ''Validation error - assuming success'') \<and>
   (\<not> edited_readable env \<or> anthropic env = None \<longrightarrow> success result = Some (JBool True)) \<and>
   (\<forall>r blocks. anthropic env = Some (Some r # blocks) \<and>
      (match_object ''all_translated'' r = None \<or>
       (\<exists>m. match_object ''all_translated'' r = Some m \<and> JSON_parse m = None)) \<longrightarrow>
      success result = Some (JBool True)) \<and>
   (success result \<noteq> Some (JBool True) \<longrightarrow>
      \<not> truthy (success result) \<and>
      (\<exists>r blocks m v. anthropic env = Some (Some r # blocks) \<and>
         match_object ''all_translated'' r = Some m \<and> JSON_parse m = Some v \<and>
         (\<not> truthy (jget v ''all_translated'') \<or>
          \<not> js_ge (to_number (toNumber env) (jget v ''quality_score'')) 80 \<or>
          truthy (jget v ''gibberish_detected'')) \<and>
         (\<forall>a q g. jget v ''all_translated'' = Some (JBool a) \<and>
                  jget v ''quality_score'' = Some (JNum q) \<and>
                  jget v ''gibberish_detected'' = Some (JBool g) \<longrightarrow>
                  \<not> a \<or> q < 80 \<or> g)))"
  (is "?never \<and> ?down \<and> ?noparse \<and> ?only")
proof -
  have never: ?never
    unfolding result_def using validate_error_accepted[of env] by blast
  have down: ?down
    unfolding result_def using validate_environment_failures[of env expectedOverlays] by blast
  have noparse: ?noparse
  proof (intro allI impI)
    fix r blocks
    assume a: "anthropic env = Some (Some r # blocks) \<and>
      (match_object ''all_translated'' r = None \<or>
       (\<exists>m. match_object ''all_translated'' r = Some m \<and> JSON_parse m = None))"
    show "success result = Some (JBool True)"
      unfolding result_def
      by (rule validate_unparseable[of env r blocks]) (simp_all add: a)
  qed
  have only: ?only
  proof
    assume ne: "success result \<noteq> Some (JBool True)"
    with validate_success[of env expectedOverlays] obtain r blocks m v where
      p: "anthropic env = Some (Some r # blocks)" "match_object ''all_translated'' r = Some m"
         "JSON_parse m = Some v"
      and s: "success result = success_of (toNumber env) v"
      unfolding result_def by blast
    from ne s success_of_cases[of "toNumber env" v]
    have f: "\<not> truthy (success result)"
      and c: "\<not> truthy (jget v ''all_translated'') \<or>
          \<not> js_ge (to_number (toNumber env) (jget v ''quality_score'')) 80 \<or>
          truthy (jget v ''gibberish_detected'')"
      by auto
    have t: "\<forall>a q g. jget v ''all_translated'' = Some (JBool a) \<and>
                  jget v ''quality_score'' = Some (JNum q) \<and>
                  jget v ''gibberish_detected'' = Some (JBool g) \<longrightarrow>
                  \<not> a \<or> q < 80 \<or> g"
      using c by (auto simp: truthy_def to_number_def js_ge_def)
    from p c t have "\<exists>r blocks m v. anthropic env = Some (Some r # blocks) \<and>
         match_object ''all_translated'' r = Some m \<and> JSON_parse m = Some v \<and>
         (\<not> truthy (jget v ''all_translated'') \<or>
          \<not> js_ge (to_number (toNumber env) (jget v ''quality_score'')) 80 \<or>
          truthy (jget v ''gibberish_detected'')) \<and>
         (\<forall>a q g. jget v ''all_translated'' = Some (JBool a) \<and>
                  jget v ''quality_score'' = Some (JNum q) \<and>
                  jget v ''gibberish_detected'' = Some (JBool g) \<longrightarrow>
                  \<not> a \<or> q < 80 \<or> g)"
      by blast
    with f show "\<not> truthy (success result) \<and>
      (\<exists>r blocks m v. anthropic env = Some (Some r # blocks) \<and>
         match_object ''all_translated'' r = Some m \<and> JSON_parse m = Some v \<and>
         (\<not> truthy (jget v ''all_translated'') \<or>
          \<not> js_ge (to_number (toNumber env) (jget v ''quality_score'')) 80 \<or>
          truthy (jget v ''gibberish_detected'')) \<and>
         (\<forall>a q g. jget v ''all_translated'' = Some (JBool a) \<and>
                  jget v ''quality_score'' = Some (JNum q) \<and>
                  jget v ''gibberish_detected'' = Some (JBool g) \<longrightarrow>
                  \<not> a \<or> q < 80 \<or> g))"
      by (rule conjI)
  qed
  show ?thesis
    by (intro conjI) (rule never, rule down, rule noparse, rule only)
qed

lemma unquoted_throws:
  "validate_body (validator (Some [Some verdict_unquoted])) (the demo_expected) = Inl SyntaxError"
  by code_simp

lemma broken_has_no_object: "match_object ''all_translated'' verdict_broken = None"
  by code_simp

lemma rejected_is_rejected:
  "success (validateImageTranslation (validator (Some [Some verdict_rejected])) demo_expected) = Some (JBool False)"
  by code_simp

lemma passed_is_accepted:
  "success (validateImageTranslation (validator (Some [Some verdict_passed])) demo_expected) = Some (JBool True)"
  by code_simp

lemma low_is_rejected:
  "success (validateImageTranslation (validator (Some [Some verdict_low])) demo_expected) = Some (JBool False)"
  by code_simp

theorem validateImageTranslation_fails_open_witness:
  "validate_body (validator (Some [Some verdict_unquoted])) (the demo_expected) = Inl SyntaxError \<and>
   validateImageTranslation (validator (Some [Some verdict_unquoted])) demo_expected =
     accepted ''Validation error - assuming success'' \<and>
   success (validateImageTranslation (validator None) demo_expected) = Some (JBool True) \<and>
   success (validateImageTranslation (validator (Some [Some verdict_broken])) demo_expected) =
     Some (JBool True) \<and>
   success (validateImageTranslation (validator (Some [Some verdict_low])) demo_expected) =
     Some (JBool False) \<and>
   \<not> truthy (success (validateImageTranslation (validator (Some [Some verdict_low])) demo_expected)) \<and>
   (\<exists>v. JSON_parse verdict_low = Some v \<and>
        \<not> js_ge (to_number (\<lambda>w. NaN) (jget v ''quality_score'')) 80)"
proof -
  note main = validateImageTranslation_fails_open
  have d: "demo_expected = Some (hd (the demo_expected) # tl (the demo_expected))"
    by (simp add: demo_expected_def)
  have u: "validate_body (validator (Some [Some verdict_unquoted]))
             (hd (the demo_expected) # tl (the demo_expected)) = Inl SyntaxError"
    using unquoted_throws by (simp add: demo_expected_def)
  have f1: "validateImageTranslation (validator (Some [Some verdict_unquoted])) demo_expected =
     accepted ''Validation error - assuming success''"
    using main[where env="validator (Some [Some verdict_unquoted])" and expectedOverlays=demo_expected, THEN conjunct1,
        rule_format, of "hd (the demo_expected)" "tl (the demo_expected)" SyntaxError] d u
    by blast
  have f2: "success (validateImageTranslation (validator None) demo_expected) = Some (JBool True)"
    using main[where env="validator None" and expectedOverlays=demo_expected, THEN conjunct2, THEN conjunct1]
    by (simp add: validator_def)
  have f3: "success (validateImageTranslation (validator (Some [Some verdict_broken])) demo_expected) =
     Some (JBool True)"
    using main[where env="validator (Some [Some verdict_broken])" and expectedOverlays=demo_expected, THEN conjunct2,
        THEN conjunct2, THEN conjunct1, rule_format, of verdict_broken "[]"]
    by (simp add: validator_def broken_has_no_object)
  have ne: "success (validateImageTranslation (validator (Some [Some verdict_low])) demo_expected) \<noteq>
     Some (JBool True)"
    by (simp add: low_is_rejected)
  from main[where env="validator (Some [Some verdict_low])" and expectedOverlays=demo_expected, THEN conjunct2,
        THEN conjunct2, THEN conjunct2, rule_format, OF ne]
  obtain r blocks m v where
    f4: "\<not> truthy (success (validateImageTranslation (validator (Some [Some verdict_low])) demo_expected))"
    and a: "anthropic (validator (Some [Some verdict_low])) = Some (Some r # blocks)"
    and m: "match_object ''all_translated'' r = Some m"
    and p: "JSON_parse m = Some v"
    and c: "\<not> truthy (jget v ''all_translated'') \<or>
          \<not> js_ge (to_number (toNumber (validator (Some [Some verdict_low]))) (jget v ''quality_score'')) 80 \<or>
          truthy (jget v ''gibberish_detected'')"
    by blast
  from a have r: "r = verdict_low" by (simp add: validator_def)
  have mm: "match_object ''all_translated'' verdict_low = Some verdict_low" by code_simp
  from m r mm have m': "m = verdict_low" by simp
  have pv: "JSON_parse verdict_low =
     Some (JObj [(''all_translated'', JBool True), (''gibberish_detected'', JBool False),
                 (''quality_score'', JNum 79), (''reason'', JStr ''blurry'')])"
    by code_simp
  from p m' pv have v: "v = JObj [(''all_translated'', JBool True), (''gibberish_detected'', JBool False),
                 (''quality_score'', JNum 79), (''reason'', JStr ''blurry'')]" by simp
  from c have c': "\<not> js_ge (to_number (\<lambda>w. NaN) (jget v ''quality_score'')) 80"
    unfolding v by (simp add: jget_def truthy_def validator_def)
  from p m' c' have f5: "\<exists>v. JSON_parse verdict_low = Some v \<and>
        \<not> js_ge (to_number (\<lambda>w. NaN) (jget v ''quality_score'')) 80" by blast
  show ?thesis
    by (intro conjI) (rule unquoted_throws, rule f1, rule f2, rule f3, rule low_is_rejected, rule f4, rule f5)
qed

end
